theory Spec2Isabelle
  imports Main "HOL-Library.Multiset"
begin

section \<open>The stats endpoint of functions/stats.js\<close>

text \<open>
  The module keeps three variables (\<^verbatim>\<open>sessions\<close>, \<^verbatim>\<open>pageViews\<close>, \<^verbatim>\<open>lastCleanup\<close>) and exports
  one asynchronous handler. The embedding passes the three variables as a record, gives
  every function the record and returns it updated, and turns every \<^verbatim>\<open>throw\<close> into a
  value. What the host supplies (\<^verbatim>\<open>JSON.parse\<close>, the clock behind \<^verbatim>\<open>Date.now()\<close> and
  \<^verbatim>\<open>new Date()\<close>, the local calendar behind \<^verbatim>\<open>toDateString()\<close>, and what the engine's
  \<^verbatim>\<open>sort\<close> does where the language leaves it open) is a parameter.
\<close>

subsection \<open>Values\<close>

text \<open>
  What \<^verbatim>\<open>JSON.parse\<close> can return, and \<^verbatim>\<open>undefined\<close> for a property that is not there.
  A number is held as its \<^verbatim>\<open>Number::toString\<close> rendering: the program only ever uses a
  client's number as a Map key (SameValueZero, which holds exactly when the renderings
  agree: \<^verbatim>\<open>+0\<close> and \<^verbatim>\<open>-0\<close> both render \<^verbatim>\<open>0\<close> and are the same key, and \<^verbatim>\<open>NaN\<close> is not
  JSON) and as a property key (its rendering). An object lists its own properties in
  the order \<^verbatim>\<open>Object.keys\<close> gives them, each name once.
\<close>

datatype jsval =
    JUndefined
  | JNull
  | JBool bool
  | JNum string
  | JStr string
  | JArr "jsval list"
  | JObj "(string \<times> jsval) list"

datatype exn = SyntaxError | TypeError

text \<open>The decimal rendering of an array index.\<close>

fun digits :: "nat \<Rightarrow> string" where
  "digits n =
     (if n < 10 then [''0123456789'' ! n]
      else digits (n div 10) @ [''0123456789'' ! (n mod 10)])"

declare digits.simps [simp del]

text \<open>
  \<^verbatim>\<open>data.sessionId\<close> and \<^verbatim>\<open>data.page\<close>: reading a property of \<^verbatim>\<open>null\<close> or
  \<^verbatim>\<open>undefined\<close> throws a TypeError; a boolean, a number, a string and an array have no
  property of either name (nor have their prototypes), so the read gives
  \<^verbatim>\<open>undefined\<close>; an object gives its own property, or \<^verbatim>\<open>undefined\<close>
  (\<^verbatim>\<open>Object.prototype\<close> has neither name).
\<close>

fun getProp :: "jsval \<Rightarrow> string \<Rightarrow> exn + jsval" where
  "getProp JUndefined name = Inl TypeError"
| "getProp JNull name = Inl TypeError"
| "getProp (JObj kvs) name =
     (case map_of kvs name of Some v \<Rightarrow> Inr v | None \<Rightarrow> Inr JUndefined)"
| "getProp v name = Inr JUndefined"

text \<open>
  \<^verbatim>\<open>{...data}\<close> copies the own enumerable properties: none for \<^verbatim>\<open>null\<close>,
  \<^verbatim>\<open>undefined\<close>, a boolean or a number, the indexed elements of an array, the indexed
  characters of a string, and the properties of an object.
\<close>

fun indexed :: "nat \<Rightarrow> jsval list \<Rightarrow> (string \<times> jsval) list" where
  "indexed i [] = []"
| "indexed i (v # vs) = (digits i, v) # indexed (Suc i) vs"

fun spread :: "jsval \<Rightarrow> (string \<times> jsval) list" where
  "spread (JObj kvs) = kvs"
| "spread (JArr vs) = indexed 0 vs"
| "spread (JStr s) = indexed 0 (map (\<lambda>c. JStr [c]) s)"
| "spread v = []"

subsection \<open>The Map of sessions\<close>

text \<open>
  A \<^verbatim>\<open>Map\<close> keeps its entries in insertion order and compares keys by SameValueZero.
  Every key the handlers look up comes out of a fresh \<^verbatim>\<open>JSON.parse\<close>, so an object or
  an array used as a key is a new reference each time and equals no key of the table.
\<close>

fun sameValueZero :: "jsval \<Rightarrow> jsval \<Rightarrow> bool" where
  "sameValueZero JUndefined JUndefined = True"
| "sameValueZero JNull JNull = True"
| "sameValueZero (JBool a) (JBool b) = (a = b)"
| "sameValueZero (JNum a) (JNum b) = (a = b)"
| "sameValueZero (JStr a) (JStr b) = (a = b)"
| "sameValueZero a b = False"

fun Map_has :: "(jsval \<times> 'v) list \<Rightarrow> jsval \<Rightarrow> bool" where
  "Map_has [] k = False"
| "Map_has ((k', v) # m) k = (sameValueZero k' k \<or> Map_has m k)"

fun Map_get :: "(jsval \<times> 'v) list \<Rightarrow> jsval \<Rightarrow> 'v option" where
  "Map_get [] k = None"
| "Map_get ((k', v) # m) k = (if sameValueZero k' k then Some v else Map_get m k)"

text \<open>\<^verbatim>\<open>set\<close> on a key of the table replaces the value where it stands; a new key goes last.\<close>

fun Map_set :: "(jsval \<times> 'v) list \<Rightarrow> jsval \<Rightarrow> 'v \<Rightarrow> (jsval \<times> 'v) list" where
  "Map_set [] k v = [(k, v)]"
| "Map_set ((k', v') # m) k v =
     (if sameValueZero k' k then (k', v) # m else (k', v') # Map_set m k v)"

fun Map_delete :: "(jsval \<times> 'v) list \<Rightarrow> jsval \<Rightarrow> (jsval \<times> 'v) list" where
  "Map_delete [] k = []"
| "Map_delete ((k', v) # m) k =
     (if sameValueZero k' k then m else (k', v) # Map_delete m k)"

subsection \<open>State, host, requests and responses\<close>

record session =
  sessionId :: jsval
  firstSeen :: int
  lastHeartbeat :: int
  currentPage :: jsval

text \<open>
  A stored page view is \<^verbatim>\<open>{...data, timestamp: new Date().toISOString()}\<close>: the
  properties copied from the body other than \<^verbatim>\<open>timestamp\<close> (which the server's value
  replaces), and the server's time stamp, held as the milliseconds it renders
  (\<^verbatim>\<open>new Date(view.timestamp)\<close> reads the same milliseconds back).
\<close>

record pageView =
  props :: "(string \<times> jsval) list"
  timestamp :: int

text \<open>
  The module's variables, and \<open>ticks\<close>: how many times the clock has been read. Each
  \<^verbatim>\<open>Date.now()\<close> and \<^verbatim>\<open>new Date()\<close> is a reading of its own, so two readings within one
  request may differ.
\<close>

record state =
  sessions :: "(jsval \<times> session) list"
  pageViews :: "pageView list"
  lastCleanup :: int
  ticks :: nat

record event =
  httpMethod :: string
  path :: string
  body :: string

text \<open>
  The value of a property of \<^verbatim>\<open>pageStats\<close>: a count, or the string that \<^verbatim>\<open>+ 1\<close> makes
  of a value inherited from \<^verbatim>\<open>Object.prototype\<close>.
\<close>

datatype stat = Count nat | Text string

text \<open>
  What the host supplies: \<^verbatim>\<open>JSON.parse\<close> (\<open>None\<close> where it throws a SyntaxError), the
  clock by the number of the reading, the local calendar day of a time stamp, and the
  order in which its \<^verbatim>\<open>sort\<close> leaves entries that the comparator does not order
  consistently, which the language leaves to the engine.
\<close>

record host =
  JSON_parse :: "string \<Rightarrow> jsval option"
  clock :: "nat \<Rightarrow> int"
  toDateString :: "int \<Rightarrow> string"
  engine_sort :: "(string \<times> stat) list \<Rightarrow> (string \<times> stat) list"

record summary =
  onlineUsers :: nat
  todayViews :: nat
  totalViews :: nat
  popularPages :: "(string \<times> stat) list"
  summary_timestamp :: int

text \<open>
  A response body is \<^verbatim>\<open>''\<close> or the \<^verbatim>\<open>JSON.stringify\<close> of one of three objects:
  \<^verbatim>\<open>{error: e}\<close>, \<^verbatim>\<open>{success: true, message: m}\<close> and the summary.
\<close>

datatype resp_body =
    EmptyBody
  | ErrorBody string
  | SuccessBody string
  | SummaryBody summary

record response =
  statusCode :: nat
  headers :: "(string \<times> string) list"
  resp_body :: resp_body

definition Date_now :: "host \<Rightarrow> state \<Rightarrow> int \<times> state" where
  "Date_now h st = (clock h (ticks st), st\<lparr>ticks := Suc (ticks st)\<rparr>)"

subsection \<open>cleanup\<close>

text \<open>
  The loop of \<^verbatim>\<open>cleanup\<close> visits the entries in order and deletes the one it stands on
  (by that entry's own key, the very reference the table holds) when its last heartbeat
  is older than the bound.
\<close>

fun sweep :: "int \<Rightarrow> (jsval \<times> session) list \<Rightarrow> (jsval \<times> session) list" where
  "sweep fiveMinutesAgo [] = []"
| "sweep fiveMinutesAgo ((sid, s) # m) =
     (if lastHeartbeat s < fiveMinutesAgo then sweep fiveMinutesAgo m
      else (sid, s) # sweep fiveMinutesAgo m)"

definition cleanup :: "host \<Rightarrow> state \<Rightarrow> state" where
  "cleanup h st =
     (let (now, st1) = Date_now h st;
          fiveMinutesAgo = now - 5 * 60 * 1000
      in st1\<lparr>sessions := sweep fiveMinutesAgo (sessions st1), lastCleanup := now\<rparr>)"

subsection \<open>The handlers\<close>

definition cors_headers :: "(string \<times> string) list" where
  "cors_headers =
     [(''Access-Control-Allow-Origin'', ''*''),
      (''Access-Control-Allow-Headers'', ''Content-Type''),
      (''Access-Control-Allow-Methods'', ''GET, POST, OPTIONS''),
      (''Content-Type'', ''application/json'')]"

definition success :: "string \<Rightarrow> response" where
  "success m = \<lparr>statusCode = 200, headers = cors_headers, resp_body = SuccessBody m\<rparr>"

text \<open>\<^verbatim>\<open>xs.slice(-n)\<close>: the last \<open>n\<close> elements, all of them when there are fewer.\<close>

definition slice_last :: "nat \<Rightarrow> 'a list \<Rightarrow> 'a list" where
  "slice_last n xs = drop (length xs - n) xs"

text \<open>
  \<^verbatim>\<open>handlePageView\<close>. A body that does not parse throws before anything is written. A body
  that parses to \<^verbatim>\<open>null\<close> spreads to no property, so the view is pushed and the list cut,
  and only then \<^verbatim>\<open>data.sessionId\<close> throws. \<^verbatim>\<open>sessions.has(k) ? sessions.get(k).firstSeen
  : Date.now()\<close> reads the clock only for a new session.
\<close>

definition handlePageView :: "host \<Rightarrow> event \<Rightarrow> state \<Rightarrow> state \<times> (exn + response)" where
  "handlePageView h ev st =
     (case JSON_parse h (body ev) of
        None \<Rightarrow> (st, Inl SyntaxError)
      | Some data \<Rightarrow>
          let (stamp, st1) = Date_now h st;
              view = \<lparr>props = filter (\<lambda>(k, v). k \<noteq> ''timestamp'') (spread data),
                      timestamp = stamp\<rparr>;
              pushed = pageViews st1 @ [view];
              st2 = st1\<lparr>pageViews :=
                      (if length pushed > 1000 then slice_last 1000 pushed else pushed)\<rparr>
          in (case getProp data ''sessionId'' of
                Inl e \<Rightarrow> (st2, Inl e)
              | Inr sid \<Rightarrow>
                  let (first, st3) =
                        (case Map_get (sessions st2) sid of
                           Some s \<Rightarrow> (firstSeen s, st2)
                         | None \<Rightarrow> Date_now h st2);
                      (now, st4) = Date_now h st3
                  in (case getProp data ''page'' of
                        Inl e \<Rightarrow> (st4, Inl e)
                      | Inr page \<Rightarrow>
                          (st4\<lparr>sessions := Map_set (sessions st4) sid
                               \<lparr>sessionId = sid, firstSeen = first,
                                lastHeartbeat = now, currentPage = page\<rparr>\<rparr>,
                           Inr (success ''Page view recorded'')))))"

text \<open>
  \<^verbatim>\<open>handleHeartbeat\<close> and \<^verbatim>\<open>handleOffline\<close> read \<^verbatim>\<open>data.sessionId\<close> before they write
  anything. \<^verbatim>\<open>sessions.has(k)\<close> holds exactly when \<^verbatim>\<open>sessions.get(k)\<close> finds an entry
  (\<open>Map_has_get\<close> below), so the test and the read that follows it are one case
  distinction here and in \<^verbatim>\<open>handlePageView\<close>.
\<close>

definition handleHeartbeat :: "host \<Rightarrow> event \<Rightarrow> state \<Rightarrow> state \<times> (exn + response)" where
  "handleHeartbeat h ev st =
     (case JSON_parse h (body ev) of
        None \<Rightarrow> (st, Inl SyntaxError)
      | Some data \<Rightarrow>
          (case getProp data ''sessionId'' of
             Inl e \<Rightarrow> (st, Inl e)
           | Inr sid \<Rightarrow>
               (case Map_get (sessions st) sid of
                  Some s \<Rightarrow>
                    let (now, st1) = Date_now h st
                    in (st1\<lparr>sessions := Map_set (sessions st1) sid (s\<lparr>lastHeartbeat := now\<rparr>)\<rparr>,
                        Inr (success ''Heartbeat received''))
                | None \<Rightarrow> (st, Inr (success ''Heartbeat received'')))))"

definition handleOffline :: "host \<Rightarrow> event \<Rightarrow> state \<Rightarrow> state \<times> (exn + response)" where
  "handleOffline h ev st =
     (case JSON_parse h (body ev) of
        None \<Rightarrow> (st, Inl SyntaxError)
      | Some data \<Rightarrow>
          (case getProp data ''sessionId'' of
             Inl e \<Rightarrow> (st, Inl e)
           | Inr sid \<Rightarrow>
               (st\<lparr>sessions := Map_delete (sessions st) sid\<rparr>,
                Inr (success ''User offline''))))"

subsection \<open>getCurrentStats\<close>

text \<open>
  \<^verbatim>\<open>pageStats[view.page]\<close> turns the page into a property key. A primitive gives its
  string. An array gives its elements joined by commas, \<^verbatim>\<open>null\<close> and \<^verbatim>\<open>undefined\<close>
  elements as the empty string. An object parsed from JSON has no callable property, so
  one with a \<^verbatim>\<open>toString\<close> property of its own has no usable \<^verbatim>\<open>toString\<close>, its
  \<^verbatim>\<open>valueOf\<close> gives no primitive, and the conversion throws a TypeError; any other
  object gives \<^verbatim>\<open>[object Object]\<close>.
\<close>

fun toPropertyKey :: "jsval \<Rightarrow> exn + string"
  and join :: "jsval list \<Rightarrow> exn + string" where
  "toPropertyKey JUndefined = Inr ''undefined''"
| "toPropertyKey JNull = Inr ''null''"
| "toPropertyKey (JBool b) = Inr (if b then ''true'' else ''false'')"
| "toPropertyKey (JNum n) = Inr n"
| "toPropertyKey (JStr s) = Inr s"
| "toPropertyKey (JArr vs) = join vs"
| "toPropertyKey (JObj kvs) =
     (if map_of kvs ''toString'' \<noteq> None then Inl TypeError else Inr ''[object Object]'')"
| "join [] = Inr []"
| "join (v # vs) =
     (case (if v = JUndefined \<or> v = JNull then Inr [] else toPropertyKey v) of
        Inl e \<Rightarrow> Inl e
      | Inr s \<Rightarrow>
          (if vs = [] then Inr s
           else (case join vs of Inl e \<Rightarrow> Inl e | Inr r \<Rightarrow> Inr (s @ '','' @ r))))"

text \<open>
  \<^verbatim>\<open>pageStats\<close> is a plain object, so a key it does not own is looked up in
  \<^verbatim>\<open>Object.prototype\<close>. The names that object defines:
\<close>

definition Object_prototype_names :: "string list" where
  "Object_prototype_names =
     [''constructor'', ''__defineGetter__'', ''__defineSetter__'', ''hasOwnProperty'',
      ''__lookupGetter__'', ''__lookupSetter__'', ''isPrototypeOf'',
      ''propertyIsEnumerable'', ''toString'', ''valueOf'', ''__proto__'',
      ''toLocaleString'']"

text \<open>
  All but \<^verbatim>\<open>__proto__\<close> are built-in functions; \<^verbatim>\<open>+ 1\<close> turns a function into its source
  text followed by \<^verbatim>\<open>1\<close>. The text is the one Node prints for a built-in; the function
  behind \<^verbatim>\<open>constructor\<close> is \<^verbatim>\<open>Object\<close>.
\<close>

definition native_source :: "string \<Rightarrow> string" where
  "native_source name =
     ''function '' @ (if name = ''constructor'' then ''Object'' else name)
       @ ''() { [native code] }''"

text \<open>
  \<^verbatim>\<open>pageStats[key] = (pageStats[key] || 0) + 1\<close>. An own property that is a count (never
  zero here) is incremented, one that is a string gets \<^verbatim>\<open>1\<close> appended (an empty string
  or a zero would be falsy and give 1). For a key the object does not own: a name of
  \<^verbatim>\<open>Object.prototype\<close> other than \<^verbatim>\<open>__proto__\<close> reads the inherited function and stores
  its source text with \<^verbatim>\<open>1\<close> appended as a new own property; \<^verbatim>\<open>__proto__\<close> reads
  \<^verbatim>\<open>Object.prototype\<close> itself and the assignment of the resulting string goes to the
  \<^verbatim>\<open>__proto__\<close> setter, which ignores a value that is not an object, so nothing is
  stored; any other key reads \<^verbatim>\<open>undefined\<close> and stores 1. A new property goes last.
\<close>

fun plus_one :: "stat \<Rightarrow> stat" where
  "plus_one (Count n) = Count (Suc n)"
| "plus_one (Text s) = (if s = [] then Count 1 else Text (s @ ''1''))"

fun assign :: "(string \<times> stat) list \<Rightarrow> string \<Rightarrow> stat \<Rightarrow> (string \<times> stat) list" where
  "assign [] key v = [(key, v)]"
| "assign ((k, old) # ps) key v =
     (if k = key then (k, v) # ps else (k, old) # assign ps key v)"

definition bump :: "(string \<times> stat) list \<Rightarrow> string \<Rightarrow> (string \<times> stat) list" where
  "bump pageStats key =
     (case map_of pageStats key of
        Some v \<Rightarrow> assign pageStats key (plus_one v)
      | None \<Rightarrow>
          if key = ''__proto__'' then pageStats
          else if key \<in> set Object_prototype_names
            then assign pageStats key (Text (native_source key @ ''1''))
          else assign pageStats key (Count 1))"

text \<open>\<^verbatim>\<open>view.page\<close>: the view is an object, so a missing property reads \<^verbatim>\<open>undefined\<close>.\<close>

definition page_of :: "pageView \<Rightarrow> jsval" where
  "page_of view = (case map_of (props view) ''page'' of Some v \<Rightarrow> v | None \<Rightarrow> JUndefined)"

text \<open>The \<^verbatim>\<open>forEach\<close> over today's views; a throw ends it.\<close>

fun count_pages ::
  "pageView list \<Rightarrow> (string \<times> stat) list \<Rightarrow> exn + (string \<times> stat) list" where
  "count_pages [] pageStats = Inr pageStats"
| "count_pages (view # views) pageStats =
     (case toPropertyKey (page_of view) of
        Inl e \<Rightarrow> Inl e
      | Inr key \<Rightarrow> count_pages views (bump pageStats key))"

text \<open>
  \<^verbatim>\<open>Object.entries\<close> lists the keys that are array indices first (canonical decimal
  numerals below \<open>2\<^sup>3\<^sup>2 - 1\<close>), in ascending numeric order, then the other keys in the
  order they were created.
\<close>

definition numeral_value :: "string \<Rightarrow> nat" where
  "numeral_value s = foldl (\<lambda>acc c. 10 * acc + (of_char c - 48)) (0 :: nat) s"

definition array_index :: "string \<Rightarrow> nat option" where
  "array_index s =
     (if s \<noteq> [] \<and> list_all (\<lambda>c. 48 \<le> (of_char c :: nat) \<and> (of_char c :: nat) \<le> 57) s
         \<and> (s = ''0'' \<or> hd s \<noteq> CHR ''0'') \<and> numeral_value s < 4294967295
      then Some (numeral_value s) else None)"

definition Object_entries :: "(string \<times> 'a) list \<Rightarrow> (string \<times> 'a) list" where
  "Object_entries ps =
     sort_key (\<lambda>(k, v). case array_index k of Some n \<Rightarrow> n | None \<Rightarrow> 0)
        (filter (\<lambda>(k, v). array_index k \<noteq> None) ps)
     @ filter (\<lambda>(k, v). array_index k = None) ps"

text \<open>
  The comparator \<^verbatim>\<open>([,a], [,b]) => b - a\<close>: the difference of two counts, \<^verbatim>\<open>NaN\<close>
  (\<open>None\<close>) when either is one of the strings above, none of which reads as a number.
  \<^verbatim>\<open>sort\<close> takes \<^verbatim>\<open>NaN\<close> for 0.
\<close>

definition comparator :: "string \<times> stat \<Rightarrow> string \<times> stat \<Rightarrow> int option" where
  "comparator x y =
     (case (snd x, snd y) of
        (Count a, Count b) \<Rightarrow> Some (int b - int a)
      | _ \<Rightarrow> None)"

definition sort_compare :: "string \<times> stat \<Rightarrow> string \<times> stat \<Rightarrow> int" where
  "sort_compare x y = (case comparator x y of Some d \<Rightarrow> d | None \<Rightarrow> 0)"

text \<open>
  \<^verbatim>\<open>Array.prototype.sort\<close> is stable: where the comparator orders the elements
  consistently, the result is the one stable arrangement, which inserting from the right
  computes.
\<close>

fun insert_by :: "('a \<Rightarrow> 'a \<Rightarrow> int) \<Rightarrow> 'a \<Rightarrow> 'a list \<Rightarrow> 'a list" where
  "insert_by cmp x [] = [x]"
| "insert_by cmp x (y # ys) =
     (if cmp x y \<le> 0 then x # y # ys else y # insert_by cmp x ys)"

definition stable_sort :: "('a \<Rightarrow> 'a \<Rightarrow> int) \<Rightarrow> 'a list \<Rightarrow> 'a list" where
  "stable_sort cmp xs = foldr (insert_by cmp) xs []"

text \<open>
  The comparator orders the entries consistently when every value is a count, and also
  when the counts among them are all the same: then every comparison is 0, between
  counts as the difference and with a string as \<^verbatim>\<open>NaN\<close>. With a string and two counts
  that differ it does not (the string equals both, and they are not equal), and the
  order is the engine's.
\<close>

definition counted :: "(string \<times> stat) list \<Rightarrow> bool" where
  "counted xs \<longleftrightarrow> list_all (\<lambda>x. case snd x of Count n \<Rightarrow> True | Text s \<Rightarrow> False) xs"

definition counts :: "(string \<times> stat) list \<Rightarrow> nat list" where
  "counts xs = concat (map (\<lambda>x. case snd x of Count n \<Rightarrow> [n] | Text s \<Rightarrow> []) xs)"

definition consistent :: "(string \<times> stat) list \<Rightarrow> bool" where
  "consistent xs \<longleftrightarrow> counted xs \<or> length (remdups (counts xs)) \<le> 1"

definition Array_sort :: "host \<Rightarrow> (string \<times> stat) list \<Rightarrow> (string \<times> stat) list" where
  "Array_sort h xs =
     (if consistent xs then stable_sort sort_compare xs else engine_sort h xs)"

text \<open>
  \<^verbatim>\<open>getCurrentStats\<close> reads the clock three times (\<^verbatim>\<open>now\<close>, which it never uses, the
  day, and the time stamp of the answer) and writes nothing else.
\<close>

definition getCurrentStats :: "host \<Rightarrow> state \<Rightarrow> state \<times> (exn + response)" where
  "getCurrentStats h st =
     (let (now, st1) = Date_now h st;
          (date, st2) = Date_now h st1;
          today = toDateString h date;
          todayPages = filter (\<lambda>view. toDateString h (timestamp view) = today) (pageViews st2)
      in (case count_pages todayPages [] of
            Inl e \<Rightarrow> (st2, Inl e)
          | Inr pageStats \<Rightarrow>
              let popular = take 10 (Array_sort h (Object_entries pageStats));
                  (stamp, st3) = Date_now h st2
              in (st3,
                  Inr \<lparr>statusCode = 200, headers = cors_headers,
                       resp_body = SummaryBody
                         \<lparr>onlineUsers = length (sessions st2),
                          todayViews = length todayPages,
                          totalViews = length (pageViews st2),
                          popularPages = popular,
                          summary_timestamp = stamp\<rparr>\<rparr>)))"

subsection \<open>The exported handler\<close>

text \<open>\<^verbatim>\<open>s.replace(pat, rep)\<close> with a string pattern: the first occurrence only.\<close>

fun String_replace :: "string \<Rightarrow> string \<Rightarrow> string \<Rightarrow> string" where
  "String_replace s pat rep =
     (if take (length pat) s = pat then rep @ drop (length pat) s
      else (case s of [] \<Rightarrow> [] | c # cs \<Rightarrow> c # String_replace cs pat rep))"

declare String_replace.simps [simp del]

text \<open>
  The \<^verbatim>\<open>switch\<close> inside \<^verbatim>\<open>try\<close>. A case whose method test fails runs into its
  \<^verbatim>\<open>break\<close>, which leaves the \<^verbatim>\<open>switch\<close> and the \<^verbatim>\<open>try\<close>; nothing follows them, so the
  function ends without a \<^verbatim>\<open>return\<close> and the handler's value is \<^verbatim>\<open>undefined\<close>
  (\<open>None\<close>).
\<close>

definition returned :: "state \<times> (exn + response) \<Rightarrow> state \<times> (exn + response option)" where
  "returned r = (case r of (st, Inl e) \<Rightarrow> (st, Inl e) | (st, Inr resp) \<Rightarrow> (st, Inr (Some resp)))"

definition route ::
  "host \<Rightarrow> event \<Rightarrow> string \<Rightarrow> string \<Rightarrow> state \<Rightarrow> state \<times> (exn + response option)" where
  "route h ev path' method st =
     (if path' = ''/pageview'' then
        (if method = ''POST'' then returned (handlePageView h ev st) else (st, Inr None))
      else if path' = ''/heartbeat'' then
        (if method = ''POST'' then returned (handleHeartbeat h ev st) else (st, Inr None))
      else if path' = ''/offline'' then
        (if method = ''POST'' then returned (handleOffline h ev st) else (st, Inr None))
      else if path' = ''/current'' then
        (if method = ''GET'' then returned (getCurrentStats h st) else (st, Inr None))
      else (st, Inr (Some \<lparr>statusCode = 404, headers = cors_headers,
                            resp_body = ErrorBody ''Not found''\<rparr>)))"

text \<open>
  The state the request is handled in: the clock is read, and when more than 60000 ms
  have passed since \<^verbatim>\<open>lastCleanup\<close>, \<^verbatim>\<open>cleanup\<close> runs (lines 42 to 45).
\<close>

definition swept :: "host \<Rightarrow> state \<Rightarrow> state" where
  "swept h st =
     (let (now, st1) = Date_now h st
      in if now - lastCleanup st1 > 60000 then cleanup h st1 else st1)"

definition handler :: "host \<Rightarrow> event \<Rightarrow> state \<Rightarrow> state \<times> response option" where
  "handler h ev st =
     (if httpMethod ev = ''OPTIONS'' then
        (st, Some \<lparr>statusCode = 200, headers = cors_headers, resp_body = EmptyBody\<rparr>)
      else
        let st1 = swept h st;
            path' = String_replace (path ev) ''/.netlify/functions/stats'' [];
            method = httpMethod ev
        in (case route h ev path' method st1 of
              (st2, Inr result) \<Rightarrow> (st2, result)
            | (st2, Inl error) \<Rightarrow>
                (st2, Some \<lparr>statusCode = 500, headers = cors_headers,
                             resp_body = ErrorBody ''Internal server error''\<rparr>)))"

text \<open>
  The module as loaded (\<^verbatim>\<open>lastCleanup = Date.now()\<close> is the first reading of the clock),
  and the host calling the handler on one request after another.
\<close>

definition loaded :: "host \<Rightarrow> state" where
  "loaded h = \<lparr>sessions = [], pageViews = [], lastCleanup = clock h 0, ticks = 1\<rparr>"

fun serve :: "host \<Rightarrow> event list \<Rightarrow> state \<Rightarrow> state" where
  "serve h [] st = st"
| "serve h (ev # evs) st = serve h evs (fst (handler h ev st))"

subsection \<open>A host to run the handler on\<close>

text \<open>
  The examples below run the handler on concrete requests. Their host reads the clock as
  one second per reading, takes the day of a time stamp in UTC, and parses the bodies
  the examples send as \<^verbatim>\<open>JSON.parse\<close> does; every other text it rejects, of which the
  examples send only \<^verbatim>\<open>{oops\<close>, which is not JSON. No example sorts entries that the
  comparator does not order consistently, so what its \<^verbatim>\<open>sort\<close> does with them is never
  asked for.
\<close>

definition demo_parse :: "string \<Rightarrow> jsval option" where
  \<open>demo_parse s =
     (if s = ''null'' then Some JNull
      else if s = ''{"sessionId":"a","page":"/home"}''
        then Some (JObj [(''sessionId'', JStr ''a''), (''page'', JStr ''/home'')])
      else if s = ''{"sessionId":"a","page":"/about"}''
        then Some (JObj [(''sessionId'', JStr ''a''), (''page'', JStr ''/about'')])
      else if s = ''{"sessionId":"b","page":"__proto__"}''
        then Some (JObj [(''sessionId'', JStr ''b''), (''page'', JStr ''__proto__'')])
      else if s = ''{"sessionId":"b","page":"constructor"}''
        then Some (JObj [(''sessionId'', JStr ''b''), (''page'', JStr ''constructor'')])
      else if s = ''{"sessionId":"a"}''
        then Some (JObj [(''sessionId'', JStr ''a'')])
      else if s = ''{"sessionId":"ghost"}''
        then Some (JObj [(''sessionId'', JStr ''ghost'')])
      else None)\<close>

definition demo_host :: host where
  "demo_host =
     \<lparr>JSON_parse = demo_parse,
      clock = (\<lambda>n. 1000 * int n),
      toDateString = (\<lambda>t. digits (nat (t div 86400000))),
      engine_sort = (\<lambda>xs. xs)\<rparr>"

definition request :: "string \<Rightarrow> string \<Rightarrow> string \<Rightarrow> event" where
  "request method suffix text =
     \<lparr>httpMethod = method, path = ''/.netlify/functions/stats'' @ suffix, body = text\<rparr>"

text \<open>
  The state the module is in after it was loaded on that host and served one
  \<^verbatim>\<open>POST /pageview\<close> with the body \<^verbatim>\<open>{"sessionId":"a","page":"/home"}\<close>.
\<close>

definition demo_state :: state where
  "demo_state =
     \<lparr>sessions =
        [(JStr ''a'', \<lparr>sessionId = JStr ''a'', firstSeen = 3000, lastHeartbeat = 4000,
                       currentPage = JStr ''/home''\<rparr>)],
      pageViews =
        [\<lparr>props = [(''sessionId'', JStr ''a''), (''page'', JStr ''/home'')],
          timestamp = 2000\<rparr>],
      lastCleanup = 0, ticks = 5\<rparr>"

text \<open>
  The same host when 400 seconds pass between the fifth reading of the clock and the
  sixth: the module is idle after the request that made \<open>demo_state\<close>.
\<close>

definition idle_host :: host where
  "idle_host =
     demo_host\<lparr>clock := (\<lambda>n. if n < 5 then 1000 * int n else 400000 + 1000 * int n)\<rparr>"

subsection \<open>What the properties speak of\<close>

text \<open>A \<^verbatim>\<open>Map\<close> holds a key once: no entry's key is the key of a later entry.\<close>

fun Map_wf :: "(jsval \<times> 'v) list \<Rightarrow> bool" where
  "Map_wf [] = True"
| "Map_wf ((k, v) # m) = (\<not> Map_has m k \<and> Map_wf m)"

text \<open>
  A request that \<^verbatim>\<open>handlePageView\<close> records: a \<^verbatim>\<open>POST\<close> routed to \<^verbatim>\<open>/pageview\<close> whose
  body parses. What it submits are the properties of the parsed body that end up in the
  stored view.
\<close>

definition submission :: "host \<Rightarrow> event \<Rightarrow> bool" where
  "submission h ev \<longleftrightarrow>
     httpMethod ev = ''POST''
     \<and> String_replace (path ev) ''/.netlify/functions/stats'' [] = ''/pageview''
     \<and> JSON_parse h (body ev) \<noteq> None"

definition payload :: "host \<Rightarrow> event \<Rightarrow> (string \<times> jsval) list" where
  "payload h ev =
     (case JSON_parse h (body ev) of
        Some data \<Rightarrow> filter (\<lambda>(k, v). k \<noteq> ''timestamp'') (spread data)
      | None \<Rightarrow> [])"

text \<open>
  How many of the views have a page that makes the property key \<open>k\<close>; views whose pages
  all make a key, none of them a name of \<^verbatim>\<open>Object.prototype\<close>; entries in descending
  order of count.
\<close>

definition key_count :: "pageView list \<Rightarrow> string \<Rightarrow> nat" where
  "key_count views k = length (filter (\<lambda>view. toPropertyKey (page_of view) = Inr k) views)"

definition clean :: "pageView list \<Rightarrow> bool" where
  "clean views \<longleftrightarrow>
     list_all (\<lambda>view. case toPropertyKey (page_of view) of
                        Inr k \<Rightarrow> k \<notin> set Object_prototype_names
                      | Inl e \<Rightarrow> False) views"

definition descending :: "(string \<times> stat) list \<Rightarrow> bool" where
  "descending xs \<longleftrightarrow>
     sorted_wrt (\<lambda>x y. case (snd x, snd y) of (Count a, Count b) \<Rightarrow> b \<le> a | _ \<Rightarrow> False) xs"

section \<open>Properties\<close>

subsection \<open>Facts about the parts\<close>

lemma Date_now_simps [simp]:
  "fst (Date_now h st) = clock h (ticks st)"
  "sessions (snd (Date_now h st)) = sessions st"
  "pageViews (snd (Date_now h st)) = pageViews st"
  "lastCleanup (snd (Date_now h st)) = lastCleanup st"
  "ticks (snd (Date_now h st)) = Suc (ticks st)"
  by (simp_all add: Date_now_def)

lemma String_replace_prefix [simp]: "String_replace (pat @ rest) pat rep = rep @ rest"
  by (simp add: String_replace.simps)

lemma request_simps [simp]:
  "httpMethod (request method suffix text) = method"
  "body (request method suffix text) = text"
  "String_replace (path (request method suffix text)) ''/.netlify/functions/stats'' rep
     = rep @ suffix"
  unfolding request_def by (simp_all del: append.simps)

lemma cleanup_simps [simp]:
  "sessions (cleanup h st) = sweep (clock h (ticks st) - 300000) (sessions st)"
  "pageViews (cleanup h st) = pageViews st"
  "lastCleanup (cleanup h st) = clock h (ticks st)"
  "ticks (cleanup h st) = Suc (ticks st)"
  by (simp_all add: cleanup_def Date_now_def)

lemma swept_simps [simp]:
  "pageViews (swept h st) = pageViews st"
  "sessions (swept h st) =
     (if clock h (ticks st) - lastCleanup st > 60000
      then sweep (clock h (Suc (ticks st)) - 300000) (sessions st) else sessions st)"
  "lastCleanup (swept h st) =
     (if clock h (ticks st) - lastCleanup st > 60000
      then clock h (Suc (ticks st)) else lastCleanup st)"
  "ticks (swept h st) =
     (if clock h (ticks st) - lastCleanup st > 60000
      then Suc (Suc (ticks st)) else Suc (ticks st))"
  by (simp_all add: swept_def Date_now_def)

lemma returned_simps [simp]:
  "returned (st, Inl e) = (st, Inl e)"
  "returned (st, Inr r) = (st, Inr (Some r))"
  by (simp_all add: returned_def)

lemma fst_returned [simp]: "fst (returned x) = fst x"
  by (cases x) (auto simp: returned_def split: sum.splits)

lemma snd_returned_iff [simp]:
  "snd (returned x) = Inr (Some r) \<longleftrightarrow> snd x = Inr r"
  "snd (returned x) = Inl e \<longleftrightarrow> snd x = Inl e"
  "snd (returned x) \<noteq> Inr None"
  by (cases x; cases "snd x"; simp add: returned_def)+

lemma success_simps [simp]:
  "headers (success m) = cors_headers"
  "statusCode (success m) = 200"
  "resp_body (success m) = SuccessBody m"
  by (simp_all add: success_def)

subsection \<open>Headers\<close>

lemma handlePageView_headers:
  "snd (handlePageView h ev st) = Inr r \<Longrightarrow> headers r = cors_headers"
  by (auto simp: handlePageView_def Let_def split: option.splits sum.splits prod.splits)

lemma handleHeartbeat_headers:
  "snd (handleHeartbeat h ev st) = Inr r \<Longrightarrow> headers r = cors_headers"
  by (auto simp: handleHeartbeat_def Let_def split: option.splits sum.splits prod.splits)

lemma handleOffline_headers:
  "snd (handleOffline h ev st) = Inr r \<Longrightarrow> headers r = cors_headers"
  by (auto simp: handleOffline_def Let_def split: option.splits sum.splits prod.splits)

lemma getCurrentStats_headers:
  "snd (getCurrentStats h st) = Inr r \<Longrightarrow> headers r = cors_headers"
  by (auto simp: getCurrentStats_def Let_def split: option.splits sum.splits prod.splits)

lemma route_headers:
  "snd (route h ev p m st) = Inr (Some r) \<Longrightarrow> headers r = cors_headers"
  unfolding route_def
  by (auto split: if_splits
      dest: handlePageView_headers handleHeartbeat_headers handleOffline_headers
            getCurrentStats_headers)

text \<open>
  C9. An \<^verbatim>\<open>OPTIONS\<close> request is answered with status 200 and the empty body, and leaves
  the state alone. Every response the handler returns, whatever the route and the
  status, carries exactly the four headers.
\<close>

theorem handler_options_and_headers:
  "(httpMethod ev = ''OPTIONS'' \<longrightarrow>
      handler h ev st =
        (st, Some \<lparr>statusCode = 200,
                   headers =
                     [(''Access-Control-Allow-Origin'', ''*''),
                      (''Access-Control-Allow-Headers'', ''Content-Type''),
                      (''Access-Control-Allow-Methods'', ''GET, POST, OPTIONS''),
                      (''Content-Type'', ''application/json'')],
                   resp_body = EmptyBody\<rparr>))
   \<and> (\<forall>r. snd (handler h ev st) = Some r \<longrightarrow>
          headers r =
            [(''Access-Control-Allow-Origin'', ''*''),
             (''Access-Control-Allow-Headers'', ''Content-Type''),
             (''Access-Control-Allow-Methods'', ''GET, POST, OPTIONS''),
             (''Content-Type'', ''application/json'')])"
proof (intro conjI impI allI)
  assume "httpMethod ev = ''OPTIONS''"
  then show "handler h ev st =
        (st, Some \<lparr>statusCode = 200,
                   headers =
                     [(''Access-Control-Allow-Origin'', ''*''),
                      (''Access-Control-Allow-Headers'', ''Content-Type''),
                      (''Access-Control-Allow-Methods'', ''GET, POST, OPTIONS''),
                      (''Content-Type'', ''application/json'')],
                   resp_body = EmptyBody\<rparr>)"
    by (simp add: handler_def cors_headers_def)
next
  fix r
  assume r: "snd (handler h ev st) = Some r"
  let ?rt = "route h ev (String_replace (path ev) ''/.netlify/functions/stats'' [])
               (httpMethod ev) (swept h st)"
  have "headers r = cors_headers"
  proof (cases "httpMethod ev = ''OPTIONS''")
    case True
    with r show ?thesis by (auto simp: handler_def)
  next
    case False
    obtain st2 res where rt: "?rt = (st2, res)"
      by (cases ?rt)
    show ?thesis
    proof (cases res)
      case (Inl e)
      with r False rt show ?thesis by (auto simp: handler_def Let_def)
    next
      case (Inr result)
      with r False rt have "result = Some r" by (auto simp: handler_def Let_def)
      with rt Inr have "snd ?rt = Inr (Some r)"
        by simp
      then show ?thesis by (rule route_headers)
    qed
  qed
  then show "headers r =
            [(''Access-Control-Allow-Origin'', ''*''),
             (''Access-Control-Allow-Headers'', ''Content-Type''),
             (''Access-Control-Allow-Methods'', ''GET, POST, OPTIONS''),
             (''Content-Type'', ''application/json'')]"
    by (simp add: cors_headers_def)
qed

theorem handler_options_and_headers_witness:
  "handler demo_host (request ''OPTIONS'' ''/pageview'' []) (loaded demo_host) =
     (loaded demo_host,
      Some \<lparr>statusCode = 200,
            headers =
              [(''Access-Control-Allow-Origin'', ''*''),
               (''Access-Control-Allow-Headers'', ''Content-Type''),
               (''Access-Control-Allow-Methods'', ''GET, POST, OPTIONS''),
               (''Content-Type'', ''application/json'')],
            resp_body = EmptyBody\<rparr>)
   \<and> snd (handler demo_host (request ''GET'' ''/nowhere'' []) (loaded demo_host)) =
       Some \<lparr>statusCode = 404,
             headers =
               [(''Access-Control-Allow-Origin'', ''*''),
                (''Access-Control-Allow-Headers'', ''Content-Type''),
                (''Access-Control-Allow-Methods'', ''GET, POST, OPTIONS''),
                (''Content-Type'', ''application/json'')],
             resp_body = ErrorBody ''Not found''\<rparr>"
proof -
  have m: "httpMethod (request ''OPTIONS'' ''/pageview'' []) = ''OPTIONS''"
    by simp
  have r: "snd (handler demo_host (request ''GET'' ''/nowhere'' []) (loaded demo_host)) =
             Some \<lparr>statusCode = 404, headers = cors_headers, resp_body = ErrorBody ''Not found''\<rparr>"
    by (simp add: handler_def route_def)
  from handler_options_and_headers [of "request ''OPTIONS'' ''/pageview'' []" demo_host "loaded demo_host"] m
    handler_options_and_headers [of "request ''GET'' ''/nowhere'' []" demo_host "loaded demo_host"] r
  show ?thesis
    by (simp add: cors_headers_def)
qed

subsection \<open>Routing\<close>

lemma fst_handler_route:
  "httpMethod ev \<noteq> ''OPTIONS'' \<Longrightarrow>
   fst (handler h ev st) =
     fst (route h ev (String_replace (path ev) ''/.netlify/functions/stats'' [])
            (httpMethod ev) (swept h st))"
  by (simp add: handler_def Let_def split: prod.splits sum.splits)

lemma wrong_method_no_response:
  assumes "String_replace (path ev) ''/.netlify/functions/stats'' [] = p"
    and "p = ''/pageview'' \<and> httpMethod ev \<noteq> ''POST''
       \<or> p = ''/heartbeat'' \<and> httpMethod ev \<noteq> ''POST''
       \<or> p = ''/offline'' \<and> httpMethod ev \<noteq> ''POST''
       \<or> p = ''/current'' \<and> httpMethod ev \<noteq> ''GET''"
    and "httpMethod ev \<noteq> ''OPTIONS''"
  shows "handler h ev st = (swept h st, None)"
  using assms by (auto simp: handler_def route_def)

text \<open>
  C1. The claim is that a known path with the wrong method is answered with 404. The
  code answers nothing: \<^verbatim>\<open>GET\<close> on \<^verbatim>\<open>/pageview\<close> enters \<^verbatim>\<open>case '/pageview'\<close>, fails the
  method test, breaks out of the \<^verbatim>\<open>switch\<close>, and the function ends without a
  \<^verbatim>\<open>return\<close>. The 404 of the \<^verbatim>\<open>default\<close> branch is only reached by an unmatched path.
\<close>

theorem wrong_method_returns_nothing:
  "handler h (request ''GET'' ''/pageview'' text) st = (swept h st, None)"
  by (simp add: handler_def route_def)

subsection \<open>The summary writes nothing\<close>

lemma getCurrentStats_frame [simp]:
  "sessions (fst (getCurrentStats h st)) = sessions st"
  "pageViews (fst (getCurrentStats h st)) = pageViews st"
  "lastCleanup (fst (getCurrentStats h st)) = lastCleanup st"
  by (simp_all add: getCurrentStats_def Date_now_def Let_def split: sum.splits)

text \<open>
  C10. \<^verbatim>\<open>getCurrentStats\<close> leaves the session table, the page-view list and
  \<^verbatim>\<open>lastCleanup\<close> as they were, whether it returns or throws. A \<^verbatim>\<open>GET /current\<close> request
  therefore leaves the page-view list as it was and changes the session table only by
  the cleanup sweep that runs before the routing, when it is due.
\<close>

theorem getCurrentStats_read_only:
  "sessions (fst (getCurrentStats h st)) = sessions st
   \<and> pageViews (fst (getCurrentStats h st)) = pageViews st
   \<and> lastCleanup (fst (getCurrentStats h st)) = lastCleanup st
   \<and> (httpMethod ev = ''GET''
        \<and> String_replace (path ev) ''/.netlify/functions/stats'' [] = ''/current'' \<longrightarrow>
      pageViews (fst (handler h ev st)) = pageViews st
      \<and> sessions (fst (handler h ev st)) =
          (if clock h (ticks st) - lastCleanup st > 60000
           then sweep (clock h (Suc (ticks st)) - 300000) (sessions st)
           else sessions st))"
  by (simp add: fst_handler_route route_def)

theorem getCurrentStats_read_only_witness:
  "httpMethod (request ''GET'' ''/current'' []) = ''GET''
   \<and> String_replace (path (request ''GET'' ''/current'' []))
        ''/.netlify/functions/stats'' [] = ''/current''
   \<and> pageViews (fst (handler demo_host (request ''GET'' ''/current'' []) (loaded demo_host))) = []
   \<and> sessions (fst (handler demo_host (request ''GET'' ''/current'' []) (loaded demo_host))) = []"
  using getCurrentStats_read_only [of demo_host "loaded demo_host" "request ''GET'' ''/current'' []"]
  by (simp add: loaded_def demo_host_def)

subsection \<open>The Map\<close>

lemma sameValueZero_commute: "sameValueZero a b = sameValueZero b a"
  by (cases a; cases b; auto)

lemma sameValueZero_cong:
  "sameValueZero a k \<Longrightarrow> sameValueZero a k' = sameValueZero k k'"
  by (cases a; cases k; simp; cases k'; simp)

lemma sameValueZero_cong_right:
  "sameValueZero a k \<Longrightarrow> sameValueZero x a = sameValueZero x k"
  by (cases a; cases k; simp; cases x; simp)

lemma Map_has_cong: "sameValueZero a k \<Longrightarrow> Map_has m a = Map_has m k"
  by (induction m) (auto simp: sameValueZero_cong_right)

lemma Map_has_get: "Map_has m k \<longleftrightarrow> Map_get m k \<noteq> None"
  by (induction m) auto

lemma Map_has_iff: "Map_has m k \<longleftrightarrow> (\<exists>e \<in> set m. sameValueZero (fst e) k)"
  by (induction m) auto

lemma Map_get_set_same:
  "Map_get m k = Some s \<Longrightarrow> Map_get (Map_set m k v) k = Some v"
  by (induction m) (auto split: if_splits)

lemma Map_get_set_other:
  "\<not> sameValueZero k k' \<Longrightarrow> Map_get (Map_set m k v) k' = Map_get m k'"
proof (induction m)
  case Nil
  then show ?case by simp
next
  case (Cons e m)
  obtain a b where e: "e = (a, b)" by (cases e)
  show ?case
  proof (cases "sameValueZero a k")
    case True
    with Cons.prems have "\<not> sameValueZero a k'"
      using sameValueZero_cong [OF True, of k'] by simp
    with True e show ?thesis by simp
  next
    case False
    with Cons e show ?thesis by simp
  qed
qed

lemma Map_set_keys:
  "Map_get m k = Some s \<Longrightarrow> map fst (Map_set m k v) = map fst m"
  by (induction m) (auto split: if_splits)

lemma Map_set_absent: "Map_get m k = None \<Longrightarrow> Map_set m k v = m @ [(k, v)]"
  by (induction m) (auto split: if_splits)

lemma Map_has_set: "Map_has (Map_set m k v) k' \<longleftrightarrow> Map_has m k' \<or> sameValueZero k k'"
proof (induction m)
  case Nil
  then show ?case by simp
next
  case (Cons e m)
  obtain a b where e: "e = (a, b)" by (cases e)
  show ?case
  proof (cases "sameValueZero a k")
    case True
    then have "sameValueZero a k' = sameValueZero k k'" by (rule sameValueZero_cong)
    with True e show ?thesis by auto
  next
    case False
    with Cons e show ?thesis by auto
  qed
qed

lemma Map_wf_set: "Map_wf m \<Longrightarrow> Map_wf (Map_set m k v)"
  by (induction m) (auto simp: Map_has_set sameValueZero_commute [of k])

lemma Map_has_delete: "Map_has (Map_delete m k) k' \<Longrightarrow> Map_has m k'"
  by (induction m) (auto split: if_splits)

lemma Map_wf_delete: "Map_wf m \<Longrightarrow> Map_wf (Map_delete m k)"
  by (induction m) (auto dest: Map_has_delete)





subsection \<open>The cleanup sweep\<close>

lemma sweep_filter:
  "sweep t m = filter (\<lambda>(sid, s). \<not> lastHeartbeat s < t) m"
  by (induction m) auto

lemma Map_has_sweep: "Map_has (sweep t m) k \<Longrightarrow> Map_has m k"
  by (induction m) (auto split: if_splits)

lemma Map_wf_sweep: "Map_wf m \<Longrightarrow> Map_wf (sweep t m)"
  by (induction m) (auto dest: Map_has_sweep)

lemma Map_wf_swept: "Map_wf (sessions st) \<Longrightarrow> Map_wf (sessions (swept h st))"
  by (simp add: Map_wf_sweep)

lemma handlePageView_frame [simp]:
  "lastCleanup (fst (handlePageView h ev st)) = lastCleanup st"
  by (simp add: handlePageView_def Date_now_def Let_def split: option.split sum.split)

lemma handleHeartbeat_frame [simp]:
  "lastCleanup (fst (handleHeartbeat h ev st)) = lastCleanup st"
  "pageViews (fst (handleHeartbeat h ev st)) = pageViews st"
  by (simp_all add: handleHeartbeat_def Date_now_def Let_def split: option.split sum.split)

lemma handleOffline_frame [simp]:
  "lastCleanup (fst (handleOffline h ev st)) = lastCleanup st"
  "pageViews (fst (handleOffline h ev st)) = pageViews st"
  "ticks (fst (handleOffline h ev st)) = ticks st"
  by (simp_all add: handleOffline_def Let_def split: option.split sum.split)

lemma route_lastCleanup [simp]:
  "lastCleanup (fst (route h ev p m st)) = lastCleanup st"
  by (simp add: route_def)

lemma swept_unfold:
  "swept h st =
     (if clock h (ticks st) - lastCleanup st > 60000
      then cleanup h (st\<lparr>ticks := Suc (ticks st)\<rparr>) else st\<lparr>ticks := Suc (ticks st)\<rparr>)"
  by (simp add: swept_def Date_now_def)

lemma fst_handler:
  "fst (handler h ev st) =
     (if httpMethod ev = ''OPTIONS'' then st
      else fst (route h ev (String_replace (path ev) ''/.netlify/functions/stats'' [])
                  (httpMethod ev) (swept h st)))"
  by (simp add: handler_def Let_def split: prod.splits sum.splits)

text \<open>
  C6. \<^verbatim>\<open>cleanup\<close> keeps, in their order, exactly the sessions whose last heartbeat is
  not older than 300000 ms before the time it reads, touches nothing else but
  \<^verbatim>\<open>lastCleanup\<close>, which it sets to that time. The handler runs it before routing when
  the time it reads exceeds \<^verbatim>\<open>lastCleanup\<close> by more than 60000 ms, and otherwise routes
  in the state as it was; an \<^verbatim>\<open>OPTIONS\<close> request never runs it. So \<^verbatim>\<open>lastCleanup\<close>
  moves on a request exactly when the sweep was due.
\<close>

theorem cleanup_sweep:
  "sessions (cleanup h st) =
     filter (\<lambda>(sid, s). \<not> lastHeartbeat s < clock h (ticks st) - 300000) (sessions st)
   \<and> pageViews (cleanup h st) = pageViews st
   \<and> lastCleanup (cleanup h st) = clock h (ticks st)
   \<and> swept h st =
       (if clock h (ticks st) - lastCleanup st > 60000
        then cleanup h (st\<lparr>ticks := Suc (ticks st)\<rparr>) else st\<lparr>ticks := Suc (ticks st)\<rparr>)
   \<and> fst (handler h ev st) =
       (if httpMethod ev = ''OPTIONS'' then st
        else fst (route h ev (String_replace (path ev) ''/.netlify/functions/stats'' [])
                    (httpMethod ev) (swept h st)))
   \<and> lastCleanup (fst (handler h ev st)) =
       (if httpMethod ev \<noteq> ''OPTIONS'' \<and> clock h (ticks st) - lastCleanup st > 60000
        then clock h (Suc (ticks st)) else lastCleanup st)"
  by (simp add: sweep_filter swept_unfold [symmetric] fst_handler)

subsection \<open>Running the handler on the example host\<close>

lemma demo_parse_simps [simp]:
  \<open>demo_parse ''null'' = Some JNull\<close>
  \<open>demo_parse ''{oops'' = None\<close>
  \<open>demo_parse ''{"sessionId":"a","page":"/home"}'' =
     Some (JObj [(''sessionId'', JStr ''a''), (''page'', JStr ''/home'')])\<close>
  \<open>demo_parse ''{"sessionId":"a","page":"/about"}'' =
     Some (JObj [(''sessionId'', JStr ''a''), (''page'', JStr ''/about'')])\<close>
  \<open>demo_parse ''{"sessionId":"b","page":"__proto__"}'' =
     Some (JObj [(''sessionId'', JStr ''b''), (''page'', JStr ''__proto__'')])\<close>
  \<open>demo_parse ''{"sessionId":"b","page":"constructor"}'' =
     Some (JObj [(''sessionId'', JStr ''b''), (''page'', JStr ''constructor'')])\<close>
  \<open>demo_parse ''{"sessionId":"a"}'' = Some (JObj [(''sessionId'', JStr ''a'')])\<close>
  \<open>demo_parse ''{"sessionId":"ghost"}'' = Some (JObj [(''sessionId'', JStr ''ghost'')])\<close>
  by (simp_all add: demo_parse_def)

lemma demo_host_simps [simp]:
  "JSON_parse demo_host = demo_parse"
  "clock demo_host n = 1000 * int n"
  "toDateString demo_host t = digits (nat (t div 86400000))"
  by (simp_all add: demo_host_def)

lemma demo_state_reached:
  \<open>fst (handler demo_host (request ''POST'' ''/pageview'' ''{"sessionId":"a","page":"/home"}'')
          (loaded demo_host)) = demo_state\<close>
  by (simp add: fst_handler route_def handlePageView_def Date_now_def Let_def swept_def
      loaded_def demo_state_def slice_last_def)

subsection \<open>Sessions\<close>

lemma getProp_other:
  "getProp data name = Inr v \<Longrightarrow> \<exists>v'. getProp data name' = Inr v'"
  by (cases data) (auto split: option.splits)

lemma getProp_Inl: "getProp data name = Inl e \<longleftrightarrow> (data = JUndefined \<or> data = JNull) \<and> e = TypeError"
  by (cases data) (auto split: option.splits)


lemma handlePageView_new:
  assumes "JSON_parse h (body ev) = Some data"
    and "getProp data ''sessionId'' = Inr sid"
    and "getProp data ''page'' = Inr page"
    and "Map_get (sessions st) sid = None"
  shows "sessions (fst (handlePageView h ev st)) =
           sessions st @
             [(sid, \<lparr>sessionId = sid, firstSeen = clock h (Suc (ticks st)),
                    lastHeartbeat = clock h (Suc (Suc (ticks st))), currentPage = page\<rparr>)]"
  using assms by (simp add: handlePageView_def Date_now_def Let_def Map_set_absent)

lemma handleHeartbeat_known:
  assumes "JSON_parse h (body ev) = Some data"
    and "getProp data ''sessionId'' = Inr sid"
    and "Map_get (sessions st) sid = Some s"
  shows "handleHeartbeat h ev st =
           (st\<lparr>ticks := Suc (ticks st),
               sessions := Map_set (sessions st) sid (s\<lparr>lastHeartbeat := clock h (ticks st)\<rparr>)\<rparr>,
            Inr (success ''Heartbeat received''))"
  using assms by (simp add: handleHeartbeat_def Date_now_def Let_def)

lemma handleHeartbeat_unknown:
  assumes "JSON_parse h (body ev) = Some data"
    and "getProp data ''sessionId'' = Inr sid"
    and "Map_get (sessions st) sid = None"
  shows "handleHeartbeat h ev st = (st, Inr (success ''Heartbeat received''))"
  using assms by (simp add: handleHeartbeat_def)

lemma handleHeartbeat_null:
  "JSON_parse h (body ev) = Some JNull \<Longrightarrow> handleHeartbeat h ev st = (st, Inl TypeError)"
  by (simp add: handleHeartbeat_def)

lemma snd_handler_POST:
  assumes "httpMethod ev = ''POST''"
  shows "String_replace (path ev) ''/.netlify/functions/stats'' [] = ''/pageview'' \<Longrightarrow>
         snd (handler h ev st) =
           (case snd (handlePageView h ev (swept h st)) of
              Inr r \<Rightarrow> Some r
            | Inl e \<Rightarrow> Some \<lparr>statusCode = 500, headers = cors_headers,
                              resp_body = ErrorBody ''Internal server error''\<rparr>)"
    and "String_replace (path ev) ''/.netlify/functions/stats'' [] = ''/heartbeat'' \<Longrightarrow>
         snd (handler h ev st) =
           (case snd (handleHeartbeat h ev (swept h st)) of
              Inr r \<Rightarrow> Some r
            | Inl e \<Rightarrow> Some \<lparr>statusCode = 500, headers = cors_headers,
                              resp_body = ErrorBody ''Internal server error''\<rparr>)"
    and "String_replace (path ev) ''/.netlify/functions/stats'' [] = ''/offline'' \<Longrightarrow>
         snd (handler h ev st) =
           (case snd (handleOffline h ev (swept h st)) of
              Inr r \<Rightarrow> Some r
            | Inl e \<Rightarrow> Some \<lparr>statusCode = 500, headers = cors_headers,
                              resp_body = ErrorBody ''Internal server error''\<rparr>)"
  using assms
  by (simp_all add: handler_def route_def Let_def returned_def split: prod.split sum.split)

lemma fst_handler_POST:
  assumes "httpMethod ev = ''POST''"
  shows "String_replace (path ev) ''/.netlify/functions/stats'' [] = ''/pageview'' \<Longrightarrow>
         fst (handler h ev st) = fst (handlePageView h ev (swept h st))"
    and "String_replace (path ev) ''/.netlify/functions/stats'' [] = ''/heartbeat'' \<Longrightarrow>
         fst (handler h ev st) = fst (handleHeartbeat h ev (swept h st))"
    and "String_replace (path ev) ''/.netlify/functions/stats'' [] = ''/offline'' \<Longrightarrow>
         fst (handler h ev st) = fst (handleOffline h ev (swept h st))"
  using assms by (simp_all add: fst_handler route_def)

lemma handler_GET_current:
  assumes "httpMethod ev = ''GET''"
    and "String_replace (path ev) ''/.netlify/functions/stats'' [] = ''/current''"
  shows "fst (handler h ev st) = fst (getCurrentStats h (swept h st))"
    and "snd (handler h ev st) =
           (case snd (getCurrentStats h (swept h st)) of
              Inr r \<Rightarrow> Some r
            | Inl e \<Rightarrow> Some \<lparr>statusCode = 500, headers = cors_headers,
                              resp_body = ErrorBody ''Internal server error''\<rparr>)"
  using assms
  by (simp_all add: handler_def route_def Let_def returned_def split: prod.split sum.split)

lemma idle_host_simps [simp]:
  "JSON_parse idle_host = demo_parse"
  "clock idle_host n = (if n < 5 then 1000 * int n else 400000 + 1000 * int n)"
  "toDateString idle_host t = digits (nat (t div 86400000))"
  by (simp_all add: idle_host_def demo_host_def)

lemma refresh_absent:
  "\<not> Map_has m k \<Longrightarrow>
   map (\<lambda>(k', x). if sameValueZero k' k then (k', f x) else (k', x)) m = m"
  by (induction m) auto

lemma Map_set_refresh:
  assumes "Map_wf m" and "Map_get m k = Some s"
  shows "Map_set m k (f s) =
           map (\<lambda>(k', x). if sameValueZero k' k then (k', f x) else (k', x)) m"
  using assms
proof (induction m)
  case Nil
  then show ?case by simp
next
  case (Cons e m)
  obtain k' x where e: "e = (k', x)" by (cases e)
  show ?case
  proof (cases "sameValueZero k' k")
    case True
    from Cons.prems(1) e have "\<not> Map_has m k'" by simp
    with True have "\<not> Map_has m k" by (simp add: Map_has_cong)
    then have "map (\<lambda>(k', x). if sameValueZero k' k then (k', f x) else (k', x)) m = m"
      by (rule refresh_absent)
    with True e Cons.prems(2) show ?thesis by simp
  next
    case False
    with Cons e show ?thesis by simp
  qed
qed




subsection \<open>Heartbeats\<close>

text \<open>
  C4, as amended. A \<^verbatim>\<open>POST /heartbeat\<close> whose body parses to a value other than
  \<^verbatim>\<open>null\<close> (so that \<^verbatim>\<open>data.sessionId\<close> can be read) is answered with 200 and
  \<^verbatim>\<open>{success: true, message: "Heartbeat received"}\<close>, and leaves the page views alone.
  The table it leaves is the table the request was routed with (the table as it was, or
  what the sweep left of it when one was due) with the \<^verbatim>\<open>lastHeartbeat\<close> of that session
  set to the reading of the clock: every other entry is as it was, no entry is added,
  and when the session is not in the routed table the table is the same table. The
  table is taken to hold each key once, as every table the handler produces does
  (\<open>served_wf\<close> below).
\<close>

theorem heartbeat_refreshes_known_session:
  assumes "httpMethod ev = ''POST''"
    and "String_replace (path ev) ''/.netlify/functions/stats'' [] = ''/heartbeat''"
    and "JSON_parse h (body ev) = Some data"
    and "getProp data ''sessionId'' = Inr sid"
    and "Map_wf (sessions st)"
  shows "snd (handler h ev st) =
           Some \<lparr>statusCode = 200,
                 headers =
                   [(''Access-Control-Allow-Origin'', ''*''),
                    (''Access-Control-Allow-Headers'', ''Content-Type''),
                    (''Access-Control-Allow-Methods'', ''GET, POST, OPTIONS''),
                    (''Content-Type'', ''application/json'')],
                 resp_body = SuccessBody ''Heartbeat received''\<rparr>
       \<and> pageViews (fst (handler h ev st)) = pageViews st
       \<and> sessions (fst (handler h ev st)) =
           map (\<lambda>(k, x). if sameValueZero k sid
                           then (k, x\<lparr>lastHeartbeat := clock h (ticks (swept h st))\<rparr>)
                           else (k, x))
             (sessions (swept h st))
       \<and> (Map_has (sessions (swept h st)) sid \<longrightarrow>
            Map_get (sessions (fst (handler h ev st))) sid =
              map_option (\<lambda>x. x\<lparr>lastHeartbeat := clock h (ticks (swept h st))\<rparr>)
                (Map_get (sessions (swept h st)) sid))
       \<and> (\<not> Map_has (sessions (swept h st)) sid \<longrightarrow>
            sessions (fst (handler h ev st)) = sessions (swept h st))"
proof (cases "Map_get (sessions (swept h st)) sid")
  case None
  then have no: "\<not> Map_has (sessions (swept h st)) sid"
    by (simp add: Map_has_get del: swept_simps)
  have pv: "pageViews (fst (handler h ev st)) = pageViews st"
    by (simp add: fst_handler_POST(2) [OF assms(1,2)])
  have "handleHeartbeat h ev (swept h st) = (swept h st, Inr (success ''Heartbeat received''))"
    using assms(3,4) None by (rule handleHeartbeat_unknown)
  with no pv show ?thesis
    by (simp add: snd_handler_POST(2) [OF assms(1,2)] fst_handler_POST(2) [OF assms(1,2)]
        refresh_absent success_def cors_headers_def del: swept_simps)
next
  case (Some s)
  then have yes: "Map_has (sessions (swept h st)) sid"
    by (simp add: Map_has_get del: swept_simps)
  have wf: "Map_wf (sessions (swept h st))"
    using assms(5) by (rule Map_wf_swept)
  let ?f = "\<lambda>x. x\<lparr>lastHeartbeat := clock h (ticks (swept h st))\<rparr>"
  have hb: "handleHeartbeat h ev (swept h st) =
           ((swept h st)\<lparr>ticks := Suc (ticks (swept h st)),
               sessions := Map_set (sessions (swept h st)) sid (?f s)\<rparr>,
            Inr (success ''Heartbeat received''))"
    using assms(3,4) Some by (rule handleHeartbeat_known)
  have set: "Map_set (sessions (swept h st)) sid (?f s) =
      map (\<lambda>(k, x). if sameValueZero k sid then (k, ?f x) else (k, x)) (sessions (swept h st))"
    using wf Some by (rule Map_set_refresh)
  have get: "Map_get (Map_set (sessions (swept h st)) sid (?f s)) sid = Some (?f s)"
    using Some by (rule Map_get_set_same)
  have r: "snd (handler h ev st) = Some (success ''Heartbeat received'')"
    by (simp add: snd_handler_POST(2) [OF assms(1,2)] hb)
  have st': "sessions (fst (handler h ev st)) = Map_set (sessions (swept h st)) sid (?f s)"
    by (simp add: fst_handler_POST(2) [OF assms(1,2)] hb)
  have pv: "pageViews (fst (handler h ev st)) = pageViews st"
    by (simp add: fst_handler_POST(2) [OF assms(1,2)])
  from yes r pv Some show ?thesis
    unfolding st' get unfolding set
    by (simp add: success_def cors_headers_def del: swept_simps)
qed

theorem heartbeat_refreshes_known_session_witness:
  \<open>httpMethod (request ''POST'' ''/heartbeat'' ''{"sessionId":"a"}'') = ''POST''
   \<and> String_replace (path (request ''POST'' ''/heartbeat'' ''{"sessionId":"a"}''))
        ''/.netlify/functions/stats'' [] = ''/heartbeat''
   \<and> JSON_parse demo_host (body (request ''POST'' ''/heartbeat'' ''{"sessionId":"a"}''))
       = Some (JObj [(''sessionId'', JStr ''a'')])
   \<and> getProp (JObj [(''sessionId'', JStr ''a'')]) ''sessionId'' = Inr (JStr ''a'')
   \<and> Map_wf (sessions demo_state)
   \<and> Map_has (sessions (swept demo_host demo_state)) (JStr ''a'')
   \<and> sessions (fst (handler demo_host
          (request ''POST'' ''/heartbeat'' ''{"sessionId":"a"}'') demo_state))
       = [(JStr ''a'', \<lparr>sessionId = JStr ''a'', firstSeen = 3000, lastHeartbeat = 6000,
                        currentPage = JStr ''/home''\<rparr>)]
   \<and> JSON_parse demo_host (body (request ''POST'' ''/heartbeat'' ''{"sessionId":"ghost"}''))
       = Some (JObj [(''sessionId'', JStr ''ghost'')])
   \<and> getProp (JObj [(''sessionId'', JStr ''ghost'')]) ''sessionId'' = Inr (JStr ''ghost'')
   \<and> \<not> Map_has (sessions (swept demo_host demo_state)) (JStr ''ghost'')
   \<and> sessions (fst (handler demo_host
          (request ''POST'' ''/heartbeat'' ''{"sessionId":"ghost"}'') demo_state))
       = sessions demo_state
   \<and> snd (handler demo_host
          (request ''POST'' ''/heartbeat'' ''{"sessionId":"ghost"}'') demo_state)
       = Some \<lparr>statusCode = 200,
               headers =
                 [(''Access-Control-Allow-Origin'', ''*''),
                  (''Access-Control-Allow-Headers'', ''Content-Type''),
                  (''Access-Control-Allow-Methods'', ''GET, POST, OPTIONS''),
                  (''Content-Type'', ''application/json'')],
               resp_body = SuccessBody ''Heartbeat received''\<rparr>\<close>
proof -
  let ?a = \<open>request ''POST'' ''/heartbeat'' ''{"sessionId":"a"}''\<close>
  let ?g = \<open>request ''POST'' ''/heartbeat'' ''{"sessionId":"ghost"}''\<close>
  have ma: "httpMethod ?a = ''POST''" and mg: "httpMethod ?g = ''POST''" by simp_all
  have ra: "String_replace (path ?a) ''/.netlify/functions/stats'' [] = ''/heartbeat''"
    and rg: "String_replace (path ?g) ''/.netlify/functions/stats'' [] = ''/heartbeat''"
    by simp_all
  have pa: "JSON_parse demo_host (body ?a) = Some (JObj [(''sessionId'', JStr ''a'')])"
    by simp
  have ga: "getProp (JObj [(''sessionId'', JStr ''a'')]) ''sessionId'' = Inr (JStr ''a'')"
    by simp
  have pg: "JSON_parse demo_host (body ?g) = Some (JObj [(''sessionId'', JStr ''ghost'')])"
    by simp
  have gg: "getProp (JObj [(''sessionId'', JStr ''ghost'')]) ''sessionId'' = Inr (JStr ''ghost'')"
    by simp
  have wf: "Map_wf (sessions demo_state)" by (simp add: demo_state_def)
  have s: "sessions (swept demo_host demo_state) =
      [(JStr ''a'', \<lparr>sessionId = JStr ''a'', firstSeen = 3000, lastHeartbeat = 4000,
                       currentPage = JStr ''/home''\<rparr>)]"
      "ticks (swept demo_host demo_state) = 6"
      "sessions demo_state =
      [(JStr ''a'', \<lparr>sessionId = JStr ''a'', firstSeen = 3000, lastHeartbeat = 4000,
                       currentPage = JStr ''/home''\<rparr>)]"
    by (simp_all add: demo_state_def)
  from heartbeat_refreshes_known_session [OF ma ra pa ga wf]
    heartbeat_refreshes_known_session [OF mg rg pg gg wf] ma ra pa ga pg gg
  show ?thesis
    by (simp add: s del: swept_simps)
qed

text \<open>
  The claim C4 as it stands speaks of every well-formed JSON body and of the table as
  it was. \<^verbatim>\<open>null\<close> is a well-formed body, and on it \<^verbatim>\<open>data.sessionId\<close> throws: the
  answer is 500. On an idle module the sweep that precedes the routing evicts the stale
  session: a heartbeat for an unknown session leaves a table that has changed, and a
  heartbeat for the stale session does not refresh it.
\<close>

theorem heartbeat_counterexample:
  \<open>JSON_parse demo_host (body (request ''POST'' ''/heartbeat'' ''null'')) = Some JNull
   \<and> handler demo_host (request ''POST'' ''/heartbeat'' ''null'') demo_state =
       (demo_state\<lparr>ticks := 6\<rparr>,
        Some \<lparr>statusCode = 500,
              headers =
                [(''Access-Control-Allow-Origin'', ''*''),
                 (''Access-Control-Allow-Headers'', ''Content-Type''),
                 (''Access-Control-Allow-Methods'', ''GET, POST, OPTIONS''),
                 (''Content-Type'', ''application/json'')],
              resp_body = ErrorBody ''Internal server error''\<rparr>)
   \<and> sessions demo_state =
       [(JStr ''a'', \<lparr>sessionId = JStr ''a'', firstSeen = 3000, lastHeartbeat = 4000,
                      currentPage = JStr ''/home''\<rparr>)]
   \<and> sessions (fst (handler idle_host
          (request ''POST'' ''/heartbeat'' ''{"sessionId":"ghost"}'') demo_state)) = []
   \<and> sessions (fst (handler idle_host
          (request ''POST'' ''/heartbeat'' ''{"sessionId":"a"}'') demo_state)) = []\<close>
  by (simp add: handler_def route_def handleHeartbeat_def swept_def cleanup_def Date_now_def
      Let_def demo_state_def cors_headers_def)

subsection \<open>Going offline\<close>



lemmas summary_defs =
  getCurrentStats_def Date_now_def Let_def page_of_def bump_def Object_prototype_names_def
  native_source_def Object_entries_def array_index_def numeral_value_def Array_sort_def
  consistent_def counted_def counts_def stable_sort_def
  sort_compare_def comparator_def

lemma digits_0 [simp]: "digits 0 = ''0''"
  by (simp add: digits.simps)




subsection \<open>Failures\<close>

lemma handlePageView_unparsed:
  "JSON_parse h (body ev) = None \<Longrightarrow> handlePageView h ev st = (st, Inl SyntaxError)"
  by (simp add: handlePageView_def)

lemma handlePageView_pageViews:
  "JSON_parse h (body ev) = Some data \<Longrightarrow>
   pageViews (fst (handlePageView h ev st)) =
     (let pushed = pageViews st @
            [\<lparr>props = filter (\<lambda>(k, v). k \<noteq> ''timestamp'') (spread data),
              timestamp = clock h (ticks st)\<rparr>]
      in if length pushed > 1000 then slice_last 1000 pushed else pushed)"
  by (simp add: handlePageView_def Date_now_def Let_def split: option.split sum.split)

lemma handlePageView_throws:
  "snd (handlePageView h ev st) = Inl e \<Longrightarrow> sessions (fst (handlePageView h ev st)) = sessions st"
proof (cases "JSON_parse h (body ev)")
  case None
  then show ?thesis by (simp add: handlePageView_def)
next
  case (Some data)
  assume thrown: "snd (handlePageView h ev st) = Inl e"
  show ?thesis
  proof (cases "getProp data ''sessionId''")
    case (Inl e')
    with Some show ?thesis
      by (simp add: handlePageView_def Date_now_def Let_def)
  next
    case (Inr sid)
    then obtain page where "getProp data ''page'' = Inr page"
      using getProp_other by blast
    with Some Inr thrown show ?thesis
      by (simp add: handlePageView_def Date_now_def Let_def split: option.splits)
  qed
qed

lemma handleHeartbeat_throws:
  "snd (handleHeartbeat h ev st) = Inl e \<Longrightarrow> fst (handleHeartbeat h ev st) = st"
  by (simp add: handleHeartbeat_def Date_now_def Let_def split: option.splits sum.splits)

lemma handleOffline_throws:
  "snd (handleOffline h ev st) = Inl e \<Longrightarrow> fst (handleOffline h ev st) = st"
  by (simp add: handleOffline_def split: option.splits sum.splits)

lemma route_throws:
  assumes "snd (route h ev p m st) = Inl e"
  shows "sessions (fst (route h ev p m st)) = sessions st"
    and "JSON_parse h (body ev) = None \<or> p \<noteq> ''/pageview'' \<Longrightarrow>
         pageViews (fst (route h ev p m st)) = pageViews st"
  using assms
  by (auto simp: route_def handlePageView_throws handleHeartbeat_throws handleOffline_throws
      handlePageView_unparsed split: if_splits)

lemma snd_handler_throws:
  assumes "httpMethod ev \<noteq> ''OPTIONS''"
    and "snd (route h ev (String_replace (path ev) ''/.netlify/functions/stats'' [])
                (httpMethod ev) (swept h st)) = Inl e"
  shows "snd (handler h ev st) =
           Some \<lparr>statusCode = 500, headers = cors_headers,
                 resp_body = ErrorBody ''Internal server error''\<rparr>"
  using assms by (simp add: handler_def Let_def split: prod.split sum.split) auto

lemma demo_state_reached_idle:
  \<open>fst (handler idle_host (request ''POST'' ''/pageview'' ''{"sessionId":"a","page":"/home"}'')
          (loaded idle_host)) = demo_state\<close>
  by (simp add: fst_handler route_def handlePageView_def Date_now_def Let_def swept_def
      loaded_def demo_state_def slice_last_def idle_host_def)

text \<open>
  C8, as amended. When the routed handler throws, the answer is 500 with
  \<^verbatim>\<open>{error: "Internal server error"}\<close>. The session table is then the table the request
  was routed with: the table as it was, or what the cleanup sweep left of it when the
  sweep was due. The page-view list is as it was when the body did not parse, and on
  every route other than \<^verbatim>\<open>/pageview\<close>.
\<close>

theorem failure_answers_500:
  assumes "httpMethod ev \<noteq> ''OPTIONS''"
    and "snd (route h ev (String_replace (path ev) ''/.netlify/functions/stats'' [])
                (httpMethod ev) (swept h st)) = Inl e"
  shows "snd (handler h ev st) =
           Some \<lparr>statusCode = 500,
                 headers =
                   [(''Access-Control-Allow-Origin'', ''*''),
                    (''Access-Control-Allow-Headers'', ''Content-Type''),
                    (''Access-Control-Allow-Methods'', ''GET, POST, OPTIONS''),
                    (''Content-Type'', ''application/json'')],
                 resp_body = ErrorBody ''Internal server error''\<rparr>
       \<and> sessions (fst (handler h ev st)) =
           (if clock h (ticks st) - lastCleanup st > 60000
            then sweep (clock h (Suc (ticks st)) - 300000) (sessions st)
            else sessions st)
       \<and> (JSON_parse h (body ev) = None
            \<or> String_replace (path ev) ''/.netlify/functions/stats'' [] \<noteq> ''/pageview'' \<longrightarrow>
           pageViews (fst (handler h ev st)) = pageViews st)"
  using snd_handler_throws [OF assms] route_throws [OF assms(2)] assms(1)
  by (simp add: fst_handler cors_headers_def)

theorem failure_answers_500_witness:
  "httpMethod (request ''POST'' ''/pageview'' ''{oops'') \<noteq> ''OPTIONS''
   \<and> snd (route demo_host (request ''POST'' ''/pageview'' ''{oops'')
         (String_replace (path (request ''POST'' ''/pageview'' ''{oops''))
            ''/.netlify/functions/stats'' [])
         (httpMethod (request ''POST'' ''/pageview'' ''{oops'')) (swept demo_host demo_state))
       = Inl SyntaxError
   \<and> JSON_parse demo_host (body (request ''POST'' ''/pageview'' ''{oops'')) = None
   \<and> snd (handler demo_host (request ''POST'' ''/pageview'' ''{oops'') demo_state) =
           Some \<lparr>statusCode = 500,
                 headers =
                   [(''Access-Control-Allow-Origin'', ''*''),
                    (''Access-Control-Allow-Headers'', ''Content-Type''),
                    (''Access-Control-Allow-Methods'', ''GET, POST, OPTIONS''),
                    (''Content-Type'', ''application/json'')],
                 resp_body = ErrorBody ''Internal server error''\<rparr>
   \<and> sessions (fst (handler demo_host (request ''POST'' ''/pageview'' ''{oops'') demo_state))
       = sessions demo_state
   \<and> pageViews (fst (handler demo_host (request ''POST'' ''/pageview'' ''{oops'') demo_state))
       = pageViews demo_state"
proof -
  let ?ev = "request ''POST'' ''/pageview'' ''{oops''"
  have m: "httpMethod ?ev \<noteq> ''OPTIONS''" by simp
  have r: "snd (route demo_host ?ev
         (String_replace (path ?ev) ''/.netlify/functions/stats'' [])
         (httpMethod ?ev) (swept demo_host demo_state)) = Inl SyntaxError"
    by (simp add: route_def handlePageView_unparsed)
  have t: "ticks demo_state = 5" "lastCleanup demo_state = 0"
    by (simp_all add: demo_state_def)
  from failure_answers_500 [OF m r] m r show ?thesis
    by (simp add: t)
qed

text \<open>
  The claim C8 as it stands has the session table and the page-view list unchanged on
  every failing request. A \<^verbatim>\<open>POST /pageview\<close> with the body \<^verbatim>\<open>null\<close> fails after its view
  was pushed, and the view stays. A request that fails on an idle module is preceded by
  the sweep, and the stale session is gone.
\<close>

theorem failure_not_atomic_counterexample:
  "handler demo_host (request ''POST'' ''/pageview'' ''null'') demo_state =
     (demo_state\<lparr>pageViews := pageViews demo_state @ [\<lparr>props = [], timestamp = 6000\<rparr>],
                 ticks := 7\<rparr>,
      Some \<lparr>statusCode = 500, headers = cors_headers,
            resp_body = ErrorBody ''Internal server error''\<rparr>)
   \<and> handler idle_host (request ''POST'' ''/pageview'' ''{oops'') demo_state =
     (demo_state\<lparr>sessions := [], lastCleanup := 406000, ticks := 7\<rparr>,
      Some \<lparr>statusCode = 500, headers = cors_headers,
            resp_body = ErrorBody ''Internal server error''\<rparr>)"
  by (simp add: handler_def route_def handlePageView_def handlePageView_unparsed swept_def
      cleanup_def Date_now_def Let_def demo_state_def slice_last_def idle_host_def)

subsection \<open>The page-view list\<close>

lemma slice_last_short: "length xs \<le> n \<Longrightarrow> slice_last n xs = xs"
  by (simp add: slice_last_def)

lemma length_slice_last [simp]: "length (slice_last n xs) = min (length xs) n"
  by (simp add: slice_last_def)

lemma map_slice_last: "map f (slice_last n xs) = slice_last n (map f xs)"
  by (simp add: slice_last_def drop_map)

lemma slice_last_append:
  "slice_last n (slice_last n xs @ ys) = slice_last n (xs @ ys)"
  by (cases "length xs \<le> n") (simp_all add: slice_last_def add.commute)

lemma slice_last_idem: "slice_last n (slice_last n xs) = slice_last n xs"
  using slice_last_append [of n xs "[]"] by simp

lemma cap_slice_last:
  "(if length xs > n then slice_last n xs else xs) = slice_last n xs"
  by (simp add: slice_last_def)

lemma route_pageViews:
  "pageViews (fst (route h ev p m st)) =
     (if p = ''/pageview'' \<and> m = ''POST'' then pageViews (fst (handlePageView h ev st))
      else pageViews st)"
  by (simp add: route_def)

lemma handler_pageViews:
  "map props (pageViews (fst (handler h ev st))) =
     (if submission h ev
      then slice_last 1000 (map props (pageViews st) @ [payload h ev])
      else map props (pageViews st))"
proof (cases "submission h ev")
  case True
  then obtain data where d: "JSON_parse h (body ev) = Some data"
    by (auto simp: submission_def)
  from True have "httpMethod ev \<noteq> ''OPTIONS''" by (simp add: submission_def)
  with True d show ?thesis
    by (simp add: fst_handler route_pageViews submission_def payload_def
        handlePageView_pageViews Let_def cap_slice_last map_slice_last)
next
  case False
  show ?thesis
  proof (cases "JSON_parse h (body ev)")
    case None
    with False show ?thesis
      by (simp add: fst_handler route_pageViews handlePageView_unparsed)
  next
    case (Some data)
    with False show ?thesis
      by (auto simp: fst_handler route_pageViews submission_def)
  qed
qed

lemma serve_pageViews:
  "slice_last 1000 (map props (pageViews (serve h evs st))) =
     slice_last 1000 (map props (pageViews st) @ map (payload h) (filter (submission h) evs))"
proof (induction evs arbitrary: st)
  case Nil
  then show ?case by simp
next
  case (Cons ev evs)
  show ?case
    by (simp add: Cons.IH handler_pageViews slice_last_append)
qed

lemma handler_pageViews_bound:
  "length (pageViews st) \<le> 1000 \<Longrightarrow> length (pageViews (fst (handler h ev st))) \<le> 1000"
  using arg_cong [OF handler_pageViews [of h ev st], of length]
  by (simp split: if_splits)

lemma serve_pageViews_bound:
  "length (pageViews st) \<le> 1000 \<Longrightarrow> length (pageViews (serve h evs st)) \<le> 1000"
  by (induction evs arbitrary: st) (simp_all add: handler_pageViews_bound)

text \<open>
  C2. Serve any sequence of requests from a state whose page-view list holds at most
  1000 views (the loaded module holds none). The stored views then carry, in order of
  arrival, what the last 1000 of all the submissions carried: those in the list at the
  start followed by those of the requests that \<^verbatim>\<open>handlePageView\<close> recorded. The list is as
  long as all of them together, and 1000 long from then on. This holds after every
  request, since a sequence's beginnings are sequences.
\<close>

theorem pageViews_most_recent_1000:
  assumes "length (pageViews st) \<le> 1000"
  shows "map props (pageViews (serve h evs st)) =
           slice_last 1000
             (map props (pageViews st) @ map (payload h) (filter (submission h) evs))
       \<and> length (pageViews (serve h evs st)) =
           min (length (pageViews st) + length (filter (submission h) evs)) 1000"
proof -
  have "length (map props (pageViews (serve h evs st))) \<le> 1000"
    using serve_pageViews_bound [OF assms] by simp
  then have "slice_last 1000 (map props (pageViews (serve h evs st))) =
      map props (pageViews (serve h evs st))"
    by (rule slice_last_short)
  with serve_pageViews [of h evs st] have eq: "map props (pageViews (serve h evs st)) =
           slice_last 1000
             (map props (pageViews st) @ map (payload h) (filter (submission h) evs))"
    by simp
  have "length (pageViews (serve h evs st)) =
      length (map props (pageViews (serve h evs st)))"
    by simp
  also have "\<dots> = min (length (pageViews st) + length (filter (submission h) evs)) 1000"
    unfolding eq by simp
  finally show ?thesis using eq by simp
qed

theorem pageViews_most_recent_1000_witness:
  \<open>length (pageViews (loaded demo_host)) \<le> 1000
   \<and> map props (pageViews (serve demo_host
         [request ''POST'' ''/pageview'' ''{"sessionId":"a","page":"/home"}'',
          request ''GET'' ''/current'' [],
          request ''POST'' ''/pageview'' ''{oops'',
          request ''POST'' ''/pageview'' ''{"sessionId":"a","page":"/about"}'']
         (loaded demo_host))) =
       [[(''sessionId'', JStr ''a''), (''page'', JStr ''/home'')],
        [(''sessionId'', JStr ''a''), (''page'', JStr ''/about'')]]
   \<and> length (pageViews (demo_state\<lparr>pageViews := replicate 1000 \<lparr>props = [], timestamp = 0\<rparr>\<rparr>))
       \<le> 1000
   \<and> map props (pageViews (serve demo_host
         [request ''POST'' ''/pageview'' ''{"sessionId":"a","page":"/about"}'']
         (demo_state\<lparr>pageViews := replicate 1000 \<lparr>props = [], timestamp = 0\<rparr>\<rparr>))) =
       replicate 999 [] @ [[(''sessionId'', JStr ''a''), (''page'', JStr ''/about'')]]
   \<and> length (pageViews (serve demo_host
         [request ''POST'' ''/pageview'' ''{"sessionId":"a","page":"/about"}'']
         (demo_state\<lparr>pageViews := replicate 1000 \<lparr>props = [], timestamp = 0\<rparr>\<rparr>))) = 1000\<close>
proof -
  have a: "length (pageViews (loaded demo_host)) \<le> 1000"
    by (simp add: loaded_def)
  have b: "length (pageViews (demo_state\<lparr>pageViews := replicate 1000 \<lparr>props = [], timestamp = 0\<rparr>\<rparr>))
       \<le> 1000"
    by simp
  have r: "replicate 1000 ([] :: (string \<times> jsval) list) = [] # replicate 999 []"
    by (simp flip: replicate_Suc)
  from pageViews_most_recent_1000 [OF a, of demo_host] pageViews_most_recent_1000 [OF b, of demo_host]
  show ?thesis
    by (simp add: a submission_def payload_def slice_last_def loaded_def r del: serve.simps)
qed

subsection \<open>Popular pages\<close>

lemma map_of_assign: "map_of (assign ps k v) = (map_of ps)(k \<mapsto> v)"
  by (induction ps) (auto simp: fun_eq_iff)

lemma set_assign_keys: "fst ` set (assign ps k v) = insert k (fst ` set ps)"
  using arg_cong [OF map_of_assign [of ps k v], of dom]
  by (simp add: dom_map_of_conv_image_fst)

lemma assign_distinct_keys:
  "distinct (map fst ps) \<Longrightarrow> distinct (map fst (assign ps k v))"
proof (induction ps)
  case Nil
  then show ?case by simp
next
  case (Cons p ps)
  obtain a b where p: "p = (a, b)" by (cases p)
  show ?case
  proof (cases "a = k")
    case True
    with Cons.prems p show ?thesis by simp
  next
    case False
    with Cons p set_assign_keys [of ps k v] show ?thesis by simp
  qed
qed

lemma bump_clean:
  assumes "key \<notin> set Object_prototype_names"
  shows "bump ps key =
           assign ps key (case map_of ps key of Some v \<Rightarrow> plus_one v | None \<Rightarrow> Count 1)"
proof -
  have "key \<noteq> ''__proto__''"
    using assms by (auto simp: Object_prototype_names_def)
  with assms show ?thesis
    by (simp add: bump_def split: option.split)
qed

lemma key_count_snoc:
  "key_count (seen @ [view]) k =
     key_count seen k + (if toPropertyKey (page_of view) = Inr k then 1 else 0)"
  by (simp add: key_count_def)

lemma count_pages_counts:
  assumes "clean views"
    and "distinct (map fst ps)"
    and "\<And>k. map_of ps k =
           (if key_count seen k = 0 then None else Some (Count (key_count seen k)))"
  shows "\<exists>ps'. count_pages views ps = Inr ps' \<and> distinct (map fst ps')
           \<and> (\<forall>k. map_of ps' k =
                 (if key_count (seen @ views) k = 0 then None
                  else Some (Count (key_count (seen @ views) k))))"
  using assms
proof (induction views arbitrary: ps seen)
  case Nil
  then show ?case by simp
next
  case (Cons view views)
  from Cons.prems(1) obtain key where key: "toPropertyKey (page_of view) = Inr key"
    and ok: "key \<notin> set Object_prototype_names" and rest: "clean views"
    by (auto simp: clean_def split: sum.splits)
  let ?v = "Count (Suc (key_count seen key))"
  have val: "(case map_of ps key of Some v \<Rightarrow> plus_one v | None \<Rightarrow> Count 1) = ?v"
    by (simp add: Cons.prems(3))
  have b: "bump ps key = assign ps key ?v"
    by (simp add: bump_clean [OF ok] val)
  have d: "distinct (map fst (bump ps key))"
    unfolding b using Cons.prems(2) by (rule assign_distinct_keys)
  have m: "map_of (bump ps key) k =
      (if key_count (seen @ [view]) k = 0 then None
       else Some (Count (key_count (seen @ [view]) k)))" for k
    by (simp add: b map_of_assign key_count_snoc key Cons.prems(3))
  note ih = Cons.IH [OF rest d m, unfolded append_assoc append.simps]
  have step: "count_pages (view # views) ps = count_pages views (bump ps key)"
    by (simp add: key)
  show ?case unfolding step by (rule ih)
qed

lemma sort_compare_Count [simp]:
  "sort_compare (k, Count a) (k', Count b) = int b - int a"
  by (simp add: sort_compare_def comparator_def)

lemma set_insert_by [simp]: "set (insert_by cmp x xs) = insert x (set xs)"
  by (induction xs) auto

lemma mset_insert_by [simp]: "mset (insert_by cmp x xs) = add_mset x (mset xs)"
  by (induction xs) auto

lemma mset_stable_sort [simp]: "mset (stable_sort cmp xs) = mset xs"
  by (induction xs) (simp_all add: stable_sort_def)

lemma set_stable_sort [simp]: "set (stable_sort cmp xs) = set xs"
  using mset_stable_sort [of cmp xs] by (metis set_mset_mset)

lemma Array_sort_counted: "counted xs \<Longrightarrow> Array_sort h xs = stable_sort sort_compare xs"
  by (simp add: Array_sort_def consistent_def)

lemma descending_insert_by:
  assumes "descending xs" and "counted (x # xs)"
  shows "descending (insert_by sort_compare x xs)"
  using assms
proof (induction xs)
  case Nil
  then show ?case by (simp add: descending_def)
next
  case (Cons y ys)
  from Cons.prems(2) obtain k a k' b where x: "x = (k, Count a)" and y: "y = (k', Count b)"
    by (cases x; cases y; cases "snd x"; cases "snd y"; auto simp: counted_def)
  show ?case
  proof (cases "b \<le> a")
    case True
    with Cons.prems x y show ?thesis
      by (fastforce simp: descending_def counted_def list_all_iff split: stat.splits)
  next
    case False
    from Cons.prems have "descending ys" "counted (x # ys)"
      by (simp_all add: descending_def counted_def)
    then have ih: "descending (insert_by sort_compare x ys)" by (rule Cons.IH)
    with False Cons.prems x y show ?thesis
      by (auto simp: descending_def counted_def list_all_iff split: stat.splits)
  qed
qed

lemma descending_stable_sort:
  "counted xs \<Longrightarrow> descending (stable_sort sort_compare xs)"
proof (induction xs)
  case Nil
  then show ?case by (simp add: stable_sort_def descending_def)
next
  case (Cons x xs)
  then have "descending (stable_sort sort_compare xs)" by (simp add: counted_def)
  moreover from Cons.prems have "counted (x # stable_sort sort_compare xs)"
    by (simp add: counted_def list_all_iff)
  ultimately show ?case
    using descending_insert_by by (simp add: stable_sort_def)
qed

lemma mset_Object_entries [simp]: "mset (Object_entries ps) = mset ps"
  by (induction ps) (auto simp: Object_entries_def)

lemma set_Object_entries [simp]: "set (Object_entries ps) = set ps"
  using mset_Object_entries [of ps] by (metis set_mset_mset)

lemma counted_iff: "counted xs \<longleftrightarrow> (\<forall>x \<in> set xs. \<exists>n. snd x = Count n)"
proof -
  have "(case v of Count n \<Rightarrow> True | Text s \<Rightarrow> False) \<longleftrightarrow> (\<exists>n. v = Count n)" for v
    by (cases v) simp_all
  then show ?thesis by (simp add: counted_def list_all_iff)
qed

lemma distinct_keys_mset:
  "mset xs = mset ys \<Longrightarrow> distinct (map fst xs) = distinct (map fst ys)"
  by (metis mset_eq_imp_distinct_iff mset_map)

text \<open>
  Where the pages viewed today all make property keys, and none of the keys is a name
  of \<^verbatim>\<open>Object.prototype\<close>, the list is as it is meant to be: the first ten of a list
  that has one entry for every key viewed today and for no other, each with the number
  of today's views of that key, in descending order of count.
\<close>

lemma popularPages_clean:
  assumes "clean (filter (\<lambda>view. toDateString h (timestamp view)
                           = toDateString h (clock h (Suc (ticks st)))) (pageViews st))"
  shows "\<exists>sm ps. snd (getCurrentStats h st) =
                 Inr \<lparr>statusCode = 200, headers = cors_headers, resp_body = SummaryBody sm\<rparr>
          \<and> popularPages sm = take 10 ps
          \<and> descending ps
          \<and> distinct (map fst ps)
          \<and> fst ` set ps =
              {k. 0 < key_count (filter (\<lambda>view. toDateString h (timestamp view)
                           = toDateString h (clock h (Suc (ticks st)))) (pageViews st)) k}
          \<and> (\<forall>(k, v) \<in> set ps.
                v = Count (key_count (filter (\<lambda>view. toDateString h (timestamp view)
                           = toDateString h (clock h (Suc (ticks st)))) (pageViews st)) k))"
proof -
  let ?today = "filter (\<lambda>view. toDateString h (timestamp view)
                           = toDateString h (clock h (Suc (ticks st)))) (pageViews st)"
  have "\<exists>ps'. count_pages ?today [] = Inr ps' \<and> distinct (map fst ps')
           \<and> (\<forall>k. map_of ps' k =
                 (if key_count ([] @ ?today) k = 0 then None
                  else Some (Count (key_count ([] @ ?today) k))))"
    by (rule count_pages_counts [OF assms]) (simp_all add: key_count_def)
  then obtain ps' where cp: "count_pages ?today [] = Inr ps'"
    and d: "distinct (map fst ps')"
    and m: "\<And>k. map_of ps' k =
                 (if key_count ?today k = 0 then None else Some (Count (key_count ?today k)))"
    by auto
  have entry: "v = Count (key_count ?today k)" if "(k, v) \<in> set ps'" for k v
  proof -
    from that d have "map_of ps' k = Some v" by simp
    with m [of k] show ?thesis by (auto split: if_splits)
  qed
  have "dom (map_of ps') = {k. 0 < key_count ?today k}"
    by (auto simp: m dom_def)
  then have keys: "fst ` set ps' = {k. 0 < key_count ?today k}"
    by (simp add: dom_map_of_conv_image_fst)
  let ?ps = "stable_sort sort_compare (Object_entries ps')"
  have c: "counted (Object_entries ps')"
    by (auto simp: counted_iff dest: entry)
  have dp: "distinct (map fst ?ps)"
    using d distinct_keys_mset [of ?ps ps'] by simp
  have desc: "descending ?ps"
    using c by (rule descending_stable_sort)
  have r: "snd (getCurrentStats h st) =
      Inr \<lparr>statusCode = 200, headers = cors_headers,
           resp_body = SummaryBody
             \<lparr>onlineUsers = length (sessions st), todayViews = length ?today,
              totalViews = length (pageViews st), popularPages = take 10 ?ps,
              summary_timestamp = clock h (Suc (Suc (ticks st)))\<rparr>\<rparr>"
    using cp by (simp add: getCurrentStats_def Date_now_def Let_def Array_sort_counted [OF c])
  from desc dp keys entry show ?thesis
    unfolding r
    by (intro exI [of _ "\<lparr>onlineUsers = length (sessions st), todayViews = length ?today,
              totalViews = length (pageViews st), popularPages = take 10 ?ps,
              summary_timestamp = clock h (Suc (Suc (ticks st)))\<rparr>"] exI [of _ ?ps]) auto
qed

lemma serve_demo_proto:
  \<open>serve demo_host
     [request ''POST'' ''/pageview'' ''{"sessionId":"a","page":"/home"}'',
      request ''POST'' ''/pageview'' ''{"sessionId":"b","page":"__proto__"}'',
      request ''POST'' ''/pageview'' ''{"sessionId":"b","page":"__proto__"}'']
     (loaded demo_host) =
   \<lparr>sessions =
      [(JStr ''a'', \<lparr>sessionId = JStr ''a'', firstSeen = 3000, lastHeartbeat = 4000,
                     currentPage = JStr ''/home''\<rparr>),
       (JStr ''b'', \<lparr>sessionId = JStr ''b'', firstSeen = 7000, lastHeartbeat = 11000,
                     currentPage = JStr ''__proto__''\<rparr>)],
    pageViews =
      [\<lparr>props = [(''sessionId'', JStr ''a''), (''page'', JStr ''/home'')], timestamp = 2000\<rparr>,
       \<lparr>props = [(''sessionId'', JStr ''b''), (''page'', JStr ''__proto__'')], timestamp = 6000\<rparr>,
       \<lparr>props = [(''sessionId'', JStr ''b''), (''page'', JStr ''__proto__'')], timestamp = 10000\<rparr>],
    lastCleanup = 0, ticks = 12\<rparr>\<close>
  by (simp add: fst_handler route_def handlePageView_def Date_now_def Let_def swept_def
      loaded_def slice_last_def)

lemma serve_demo_constructor:
  \<open>serve demo_host
     [request ''POST'' ''/pageview'' ''{"sessionId":"a","page":"/home"}'',
      request ''POST'' ''/pageview'' ''{"sessionId":"b","page":"constructor"}'']
     (loaded demo_host) =
   \<lparr>sessions =
      [(JStr ''a'', \<lparr>sessionId = JStr ''a'', firstSeen = 3000, lastHeartbeat = 4000,
                     currentPage = JStr ''/home''\<rparr>),
       (JStr ''b'', \<lparr>sessionId = JStr ''b'', firstSeen = 7000, lastHeartbeat = 8000,
                     currentPage = JStr ''constructor''\<rparr>)],
    pageViews =
      [\<lparr>props = [(''sessionId'', JStr ''a''), (''page'', JStr ''/home'')], timestamp = 2000\<rparr>,
       \<lparr>props = [(''sessionId'', JStr ''b''), (''page'', JStr ''constructor'')], timestamp = 6000\<rparr>],
    lastCleanup = 0, ticks = 9\<rparr>\<close>
  by (simp add: fst_handler route_def handlePageView_def Date_now_def Let_def swept_def
      loaded_def slice_last_def)

text \<open>
  C7. The claim is that for every state the list groups today's views by page and is
  sorted by count. \<^verbatim>\<open>pageStats\<close> is a plain object, and a page named like a property of
  \<^verbatim>\<open>Object.prototype\<close> collides with it. After one view of \<^verbatim>\<open>/home\<close> and two of
  \<^verbatim>\<open>__proto__\<close>, all today, the list has \<^verbatim>\<open>/home\<close> alone: the page viewed most is not
  in it. After one view of \<^verbatim>\<open>/home\<close> and one of \<^verbatim>\<open>constructor\<close>, the count listed for
  \<^verbatim>\<open>constructor\<close> is not a number but the source text of \<^verbatim>\<open>Object\<close> followed by \<^verbatim>\<open>1\<close>.
\<close>

theorem popularPages_prototype_names:
  \<open>snd (handler demo_host (request ''GET'' ''/current'' [])
      (serve demo_host
         [request ''POST'' ''/pageview'' ''{"sessionId":"a","page":"/home"}'',
          request ''POST'' ''/pageview'' ''{"sessionId":"b","page":"__proto__"}'',
          request ''POST'' ''/pageview'' ''{"sessionId":"b","page":"__proto__"}'']
         (loaded demo_host))) =
     Some \<lparr>statusCode = 200, headers = cors_headers,
           resp_body = SummaryBody
             \<lparr>onlineUsers = 2, todayViews = 3, totalViews = 3,
              popularPages = [(''/home'', Count 1)], summary_timestamp = 15000\<rparr>\<rparr>
   \<and> snd (handler demo_host (request ''GET'' ''/current'' [])
      (serve demo_host
         [request ''POST'' ''/pageview'' ''{"sessionId":"a","page":"/home"}'',
          request ''POST'' ''/pageview'' ''{"sessionId":"b","page":"constructor"}'']
         (loaded demo_host))) =
     Some \<lparr>statusCode = 200, headers = cors_headers,
           resp_body = SummaryBody
             \<lparr>onlineUsers = 2, todayViews = 2, totalViews = 2,
              popularPages =
                [(''/home'', Count 1),
                 (''constructor'', Text ''function Object() { [native code] }1'')],
              summary_timestamp = 12000\<rparr>\<rparr>\<close>
  unfolding serve_demo_proto serve_demo_constructor
  by (simp add: handler_GET_current swept_def summary_defs)

subsection \<open>The states the module reaches\<close>

text \<open>
  Whatever requests the loaded module has served, its session table holds each key once
  and its page-view list holds at most 1000 views.
\<close>

lemma handlePageView_wf:
  "Map_wf (sessions st) \<Longrightarrow> Map_wf (sessions (fst (handlePageView h ev st)))"
  by (simp add: handlePageView_def Date_now_def Let_def Map_wf_set
      split: option.split sum.split)

lemma handleHeartbeat_wf:
  "Map_wf (sessions st) \<Longrightarrow> Map_wf (sessions (fst (handleHeartbeat h ev st)))"
  by (simp add: handleHeartbeat_def Date_now_def Let_def Map_wf_set
      split: option.split sum.split)

lemma handleOffline_wf:
  "Map_wf (sessions st) \<Longrightarrow> Map_wf (sessions (fst (handleOffline h ev st)))"
  by (simp add: handleOffline_def Map_wf_delete split: option.split sum.split)

lemma handler_wf:
  "Map_wf (sessions st) \<Longrightarrow> Map_wf (sessions (fst (handler h ev st)))"
  using Map_wf_swept [of st h]
  by (simp add: fst_handler route_def handlePageView_wf handleHeartbeat_wf handleOffline_wf
      del: swept_simps)

lemma serve_wf: "Map_wf (sessions st) \<Longrightarrow> Map_wf (sessions (serve h evs st))"
  by (induction evs arbitrary: st) (simp_all add: handler_wf)

lemma served_wf: "Map_wf (sessions (serve h evs (loaded h)))"
  by (rule serve_wf) (simp add: loaded_def)

lemma served_bound: "length (pageViews (serve h evs (loaded h))) \<le> 1000"
  by (rule serve_pageViews_bound) (simp add: loaded_def)

end
